theory Spec2Isabelle
  imports Main "HOL-Library.Word"
begin

section \<open>JavaScript strings and the string operations the sources use\<close>

text \<open>
  A JavaScript string is a sequence of 16-bit code units, a Node.js \<open>Buffer\<close> a sequence
  of bytes. String literals of the sources are written \<open>js ''...''\<close>.
\<close>

type_synonym jsstring = "16 word list"
type_synonym buffer = "8 word list"

definition js :: "string \<Rightarrow> jsstring" where
  "js s = map of_char s"

text \<open>\<open>s.startsWith(p)\<close>, \<open>s.endsWith(p)\<close>, \<open>s.includes(p)\<close>.\<close>

definition startsWith :: "jsstring \<Rightarrow> jsstring \<Rightarrow> bool" where
  "startsWith s p = (take (length p) s = p)"

definition endsWith :: "jsstring \<Rightarrow> jsstring \<Rightarrow> bool" where
  "endsWith s p = (length p \<le> length s \<and> drop (length s - length p) s = p)"

fun includesStr :: "jsstring \<Rightarrow> jsstring \<Rightarrow> bool" where
  "includesStr [] p = (p = [])"
| "includesStr (c # cs) p = (startsWith (c # cs) p \<or> includesStr cs p)"

text \<open>
  \<open>s.split(sep)\<close> for a non-empty separator: the pieces between successive occurrences
  of \<open>sep\<close>, scanned from the left; always at least one piece. (The sources only split
  at \<open>'/'\<close> and \<open>'github.com/'\<close>; with an empty separator this function returns \<open>[s]\<close>.)
\<close>

function splitAcc :: "jsstring \<Rightarrow> jsstring \<Rightarrow> jsstring \<Rightarrow> jsstring list" where
  "splitAcc sep acc s =
     (if s = [] then [rev acc]
      else if sep \<noteq> [] \<and> startsWith s sep then rev acc # splitAcc sep [] (drop (length sep) s)
      else splitAcc sep (hd s # acc) (tl s))"
  by pat_completeness auto
termination
  by (relation "measure (\<lambda>(sep, acc, s). length s)") auto

declare splitAcc.simps [simp del]

definition split :: "jsstring \<Rightarrow> jsstring \<Rightarrow> jsstring list" where
  "split s sep = splitAcc sep [] s"

text \<open>\<open>s.lastIndexOf(c)\<close> and \<open>xs.findIndex(p)\<close>: an index, or \<open>-1\<close>.\<close>

fun lastIndexOf :: "jsstring \<Rightarrow> 16 word \<Rightarrow> int" where
  "lastIndexOf [] c = - 1"
| "lastIndexOf (x # xs) c =
     (let r = lastIndexOf xs c in if 0 \<le> r then r + 1 else if x = c then 0 else - 1)"

fun findIndex :: "('a \<Rightarrow> bool) \<Rightarrow> 'a list \<Rightarrow> int" where
  "findIndex P [] = - 1"
| "findIndex P (x # xs) =
     (if P x then 0 else (let r = findIndex P xs in if 0 \<le> r then r + 1 else - 1))"

text \<open>\<open>s.replace(/\\/g, '/')\<close> and \<open>s.replace(/_/g, '/')\<close>: every occurrence of one code unit.\<close>

definition replaceAll :: "16 word \<Rightarrow> 16 word \<Rightarrow> jsstring \<Rightarrow> jsstring" where
  "replaceAll a b s = map (\<lambda>c. if c = a then b else c) s"

definition backslash :: "16 word" where "backslash = 92"
definition slash :: "16 word" where "slash = 47"
definition underscore :: "16 word" where "underscore = 95"
definition dot :: "16 word" where "dot = 46"

text \<open>\<open>s.replace(/^p/, '')\<close> and \<open>s.replace(/p$/, '')\<close> for a literal \<open>p\<close>.\<close>

definition stripPrefix :: "jsstring \<Rightarrow> jsstring \<Rightarrow> jsstring" where
  "stripPrefix p s = (if startsWith s p then drop (length p) s else s)"

definition stripSuffix :: "jsstring \<Rightarrow> jsstring \<Rightarrow> jsstring" where
  "stripSuffix p s = (if endsWith s p then take (length s - length p) s else s)"

section \<open>Node.js Buffer: UTF-8 and base64url\<close>

text \<open>
  \<open>Buffer.from(s, 'utf8')\<close>: the code units are read as UTF-16; a lead surrogate followed
  by a trail surrogate is one code point, an unpaired surrogate becomes U+FFFD; every code
  point is then written as 1 to 4 bytes.
\<close>

definition isLead :: "16 word \<Rightarrow> bool" where
  "isLead c = (0xD800 \<le> unat c \<and> unat c \<le> 0xDBFF)"

definition isTrail :: "16 word \<Rightarrow> bool" where
  "isTrail c = (0xDC00 \<le> unat c \<and> unat c \<le> 0xDFFF)"

definition unitCodepoint :: "16 word \<Rightarrow> nat" where
  "unitCodepoint c = (if isLead c \<or> isTrail c then 0xFFFD else unat c)"

fun utf16_codepoints :: "jsstring \<Rightarrow> nat list" where
  "utf16_codepoints [] = []"
| "utf16_codepoints [c] = [unitCodepoint c]"
| "utf16_codepoints (c # d # rest) =
     (if isLead c \<and> isTrail d
      then (0x10000 + (unat c - 0xD800) * 0x400 + (unat d - 0xDC00)) # utf16_codepoints rest
      else unitCodepoint c # utf16_codepoints (d # rest))"

definition utf8_bytes :: "nat \<Rightarrow> buffer" where
  "utf8_bytes cp =
     (if cp < 0x80 then [of_nat cp]
      else if cp < 0x800 then [of_nat (0xC0 + cp div 64), of_nat (0x80 + cp mod 64)]
      else if cp < 0x10000 then
        [of_nat (0xE0 + cp div 4096), of_nat (0x80 + cp div 64 mod 64), of_nat (0x80 + cp mod 64)]
      else
        [of_nat (0xF0 + cp div 262144), of_nat (0x80 + cp div 4096 mod 64),
         of_nat (0x80 + cp div 64 mod 64), of_nat (0x80 + cp mod 64)])"

definition Buffer_from_utf8 :: "jsstring \<Rightarrow> buffer" where
  "Buffer_from_utf8 s = concat (map utf8_bytes (utf16_codepoints s))"

text \<open>
  Well-formed UTF-16: every lead surrogate is followed by a trail surrogate and no trail
  surrogate stands alone. \<open>scalar\<close> are the Unicode scalar values.
\<close>

fun wellFormed :: "jsstring \<Rightarrow> bool" where
  "wellFormed [] = True"
| "wellFormed [c] = (\<not> isLead c \<and> \<not> isTrail c)"
| "wellFormed (c # d # rest) =
     (if isLead c then isTrail d \<and> wellFormed rest
      else \<not> isTrail c \<and> wellFormed (d # rest))"

definition scalar :: "nat \<Rightarrow> bool" where
  "scalar cp = (cp < 0x110000 \<and> \<not> (0xD800 \<le> cp \<and> cp \<le> 0xDFFF))"

text \<open>
  \<open>buf.toString('utf8')\<close>: well-formed sequences are decoded; every maximal ill-formed
  part gives one U+FFFD and decoding resumes at the byte that broke the sequence. Over-long
  forms, surrogates and code points above U+10FFFF are ill-formed (the bounds on the second
  byte). No byte-order mark is removed.
\<close>

definition isCont :: "8 word \<Rightarrow> bool" where
  "isCont b = (0x80 \<le> unat b \<and> unat b \<le> 0xBF)"

definition secondLo :: "nat \<Rightarrow> nat" where
  "secondLo u = (if u = 0xE0 then 0xA0 else if u = 0xF0 then 0x90 else 0x80)"

definition secondHi :: "nat \<Rightarrow> nat" where
  "secondHi u = (if u = 0xED then 0x9F else if u = 0xF4 then 0x8F else 0xBF)"

definition isSecond :: "nat \<Rightarrow> 8 word \<Rightarrow> bool" where
  "isSecond u b = (secondLo u \<le> unat b \<and> unat b \<le> secondHi u)"

fun utf8_codepoints :: "buffer \<Rightarrow> nat list" where
  "utf8_codepoints [] = []"
| "utf8_codepoints (b0 # rest) =
     (if unat b0 < 0x80 then unat b0 # utf8_codepoints rest
      else if 0xC2 \<le> unat b0 \<and> unat b0 \<le> 0xDF then
        (case rest of
           [] \<Rightarrow> [0xFFFD]
         | b1 # r1 \<Rightarrow>
             if isCont b1
             then ((unat b0 - 0xC0) * 64 + (unat b1 - 0x80)) # utf8_codepoints r1
             else 0xFFFD # utf8_codepoints rest)
      else if 0xE0 \<le> unat b0 \<and> unat b0 \<le> 0xEF then
        (case rest of
           [] \<Rightarrow> [0xFFFD]
         | b1 # r1 \<Rightarrow>
             if isSecond (unat b0) b1 then
               (case r1 of
                  [] \<Rightarrow> [0xFFFD]
                | b2 # r2 \<Rightarrow>
                    if isCont b2
                    then ((unat b0 - 0xE0) * 4096 + (unat b1 - 0x80) * 64 + (unat b2 - 0x80))
                         # utf8_codepoints r2
                    else 0xFFFD # utf8_codepoints r1)
             else 0xFFFD # utf8_codepoints rest)
      else if 0xF0 \<le> unat b0 \<and> unat b0 \<le> 0xF4 then
        (case rest of
           [] \<Rightarrow> [0xFFFD]
         | b1 # r1 \<Rightarrow>
             if isSecond (unat b0) b1 then
               (case r1 of
                  [] \<Rightarrow> [0xFFFD]
                | b2 # r2 \<Rightarrow>
                    if isCont b2 then
                      (case r2 of
                         [] \<Rightarrow> [0xFFFD]
                       | b3 # r3 \<Rightarrow>
                           if isCont b3
                           then ((unat b0 - 0xF0) * 262144 + (unat b1 - 0x80) * 4096
                                 + (unat b2 - 0x80) * 64 + (unat b3 - 0x80))
                                # utf8_codepoints r3
                           else 0xFFFD # utf8_codepoints r2)
                    else 0xFFFD # utf8_codepoints r1)
             else 0xFFFD # utf8_codepoints rest)
      else 0xFFFD # utf8_codepoints rest)"

definition codepointUnits :: "nat \<Rightarrow> jsstring" where
  "codepointUnits cp =
     (if cp < 0x10000 then [of_nat cp]
      else [of_nat (0xD800 + (cp - 0x10000) div 0x400), of_nat (0xDC00 + (cp - 0x10000) mod 0x400)])"

definition Buffer_toString_utf8 :: "buffer \<Rightarrow> jsstring" where
  "Buffer_toString_utf8 buf = concat (map codepointUnits (utf8_codepoints buf))"

text \<open>
  \<open>buf.toString('base64url')\<close>: three bytes give four 6-bit values, a last group of one
  or two bytes gives two or three; no padding is written. The alphabet is \<open>A-Z a-z 0-9 - _\<close>.
\<close>

definition b64char :: "nat \<Rightarrow> 16 word" where
  "b64char n =
     (if n < 26 then of_nat (n + 65)
      else if n < 52 then of_nat (n + 71)
      else if n < 62 then of_nat (n - 4)
      else if n = 62 then 45
      else 95)"

fun sextets :: "buffer \<Rightarrow> nat list" where
  "sextets (a # b # c # rest) =
     [unat a div 4, (unat a mod 4) * 16 + unat b div 16,
      (unat b mod 16) * 4 + unat c div 64, unat c mod 64] @ sextets rest"
| "sextets [a, b] = [unat a div 4, (unat a mod 4) * 16 + unat b div 16, (unat b mod 16) * 4]"
| "sextets [a] = [unat a div 4, (unat a mod 4) * 16]"
| "sextets [] = []"

definition Buffer_toString_base64url :: "buffer \<Rightarrow> jsstring" where
  "Buffer_toString_base64url buf = map b64char (sextets buf)"

text \<open>
  \<open>Buffer.from(s, 'base64url')\<close>: the decoder is lenient. Of every code unit it reads the
  low byte only (\<open>lowByte\<close>). It stops at the first \<open>'='\<close>, skips every character outside
  the alphabets (it accepts \<open>+\<close> and \<open>/\<close> as well as \<open>-\<close> and \<open>_\<close>), and turns each
  group of four 6-bit values into three bytes; a last group of two or three values gives one
  or two bytes, a single left-over value none.
\<close>

definition lowByte :: "16 word \<Rightarrow> nat" where
  "lowByte c = unat c mod 256"

definition unbase64 :: "16 word \<Rightarrow> nat option" where
  "unbase64 c =
     (let u = lowByte c in
      if 65 \<le> u \<and> u \<le> 90 then Some (u - 65)
      else if 97 \<le> u \<and> u \<le> 122 then Some (u - 71)
      else if 48 \<le> u \<and> u \<le> 57 then Some (u + 4)
      else if u = 43 \<or> u = 45 then Some 62
      else if u = 47 \<or> u = 95 then Some 63
      else None)"

fun unsextets :: "nat list \<Rightarrow> buffer" where
  "unsextets (p # q # r # s # rest) =
     [of_nat (p * 4 + q div 16), of_nat ((q mod 16) * 16 + r div 4), of_nat ((r mod 4) * 64 + s)]
     @ unsextets rest"
| "unsextets [p, q, r] = [of_nat (p * 4 + q div 16), of_nat ((q mod 16) * 16 + r div 4)]"
| "unsextets [p, q] = [of_nat (p * 4 + q div 16)]"
| "unsextets [p] = []"
| "unsextets [] = []"

definition Buffer_from_base64url :: "jsstring \<Rightarrow> buffer" where
  "Buffer_from_base64url s = unsextets (List.map_filter unbase64 (takeWhile (\<lambda>c. lowByte c \<noteq> 61) s))"

section \<open>storage/repositoryStorage.ts\<close>

text \<open>
  \<open>encodeRepositorySlug\<close> and \<open>decodeRepositorySlug\<close>. Neither Buffer call throws on a
  string, so the \<open>catch\<close> branches are never taken.
\<close>

definition encodeRepositorySlug :: "jsstring \<Rightarrow> jsstring" where
  "encodeRepositorySlug url = Buffer_toString_base64url (Buffer_from_utf8 url)"

definition decodeRepositorySlug :: "jsstring \<Rightarrow> jsstring" where
  "decodeRepositorySlug slug = Buffer_toString_utf8 (Buffer_from_base64url slug)"

section \<open>syncManager.ts: reverse lookup of the repository of a symlink target\<close>

text \<open>
  \<open>extractRepositoryUrlFromTargetPath\<close>: the segment after the first \<open>repos\<close> segment,
  with every \<open>_\<close> replaced by \<open>/\<close> and \<open>https://\<close> put in front; \<open>undefined\<close> is
  \<open>None\<close>.
\<close>

definition extractRepositoryUrlFromTargetPath :: "jsstring \<Rightarrow> jsstring option" where
  "extractRepositoryUrlFromTargetPath targetPath =
     (let normalizedPath = replaceAll backslash slash targetPath;
          pathParts = split normalizedPath (js ''/'');
          reposIndex = findIndex (\<lambda>part. part = js ''repos'') pathParts
      in if reposIndex \<noteq> - 1 \<and> reposIndex + 1 < int (length pathParts)
         then (let encodedRepoUrl = pathParts ! nat (reposIndex + 1);
                   decodedUrl = js ''https://'' @ replaceAll underscore slash encodedRepoUrl
               in Some decodedUrl)
         else None)"

text \<open>
  The sibling reverse lookup of the prompt tree provider, \<open>extractRepositoryUrlFromPath\<close>,
  which decodes the segment with \<open>decodeRepositorySlug\<close>.
\<close>

definition extractRepositoryUrlFromPath :: "jsstring \<Rightarrow> jsstring option" where
  "extractRepositoryUrlFromPath targetPath =
     (let normalizedPath = replaceAll backslash slash targetPath;
          pathParts = split normalizedPath (js ''/'');
          reposIndex = findIndex (\<lambda>part. part = js ''repos'') pathParts
      in if reposIndex \<noteq> - 1 \<and> reposIndex + 1 < int (length pathParts)
         then Some (decodeRepositorySlug (pathParts ! nat (reposIndex + 1)))
         else None)"

text \<open>The mirror path \<open><storage>/repos/<slug(u)>/f\<close> of the on-disk layout.\<close>

definition mirrorPath :: "jsstring \<Rightarrow> jsstring \<Rightarrow> jsstring \<Rightarrow> jsstring" where
  "mirrorPath storage u f =
     storage @ js ''/repos/'' @ encodeRepositorySlug u @ js ''/'' @ f"

section \<open>syncManager.ts: configuration, file system and mirror paths\<close>

text \<open>
  Thrown values: an \<open>Error\<close> with its message, a Node.js system error with its \<open>code\<close>
  and message, or a value that is not an instance of \<open>Error\<close>.
\<close>

datatype thrown = Error jsstring | SystemError jsstring jsstring | NonError

text \<open>\<open>error instanceof Error ? error.message : 'Unknown error'\<close>\<close>

fun errorMessage :: "thrown \<Rightarrow> jsstring" where
  "errorMessage (Error message) = message"
| "errorMessage (SystemError code message) = message"
| "errorMessage NonError = js ''Unknown error''"

fun errorCode :: "thrown \<Rightarrow> jsstring option" where
  "errorCode (SystemError code message) = Some code"
| "errorCode _ = None"

text \<open>
  The file system: a path holds a regular file with its text, a symbolic link with its
  target path, or nothing. Directories are not represented: a directory exists when it is
  needed (\<open>ensureDirectoryExists\<close> is called before every write).
\<close>

datatype node = File jsstring | Symlink jsstring

type_synonym filesystem = "jsstring \<Rightarrow> node option"

record repoConfig =
  url :: jsstring
  branch :: jsstring

record gitTreeItem =
  path :: jsstring
  type :: jsstring

text \<open>
  A git provider (\<open>GitApiManager\<close>, an external collaborator): what each of its calls
  answers; \<open>Inl\<close> is a rejected promise or a throw. \<open>checkAuthentication\<close> is asked a
  second time after the notification, so both answers are given.
\<close>

record gitApi =
  getProviderName :: jsstring
  checkAuthentication :: "thrown + bool"
  recheckAuthentication :: "thrown + bool"
  requestAuthentication :: "thrown + bool"
  parseRepositoryUrl :: "jsstring \<Rightarrow> thrown + (jsstring \<times> jsstring)"
  getRepositoryTree :: "jsstring \<Rightarrow> jsstring \<Rightarrow> jsstring \<Rightarrow> thrown + gitTreeItem list"
  getFileContent :: "jsstring \<Rightarrow> jsstring \<Rightarrow> jsstring \<Rightarrow> jsstring \<Rightarrow> thrown + jsstring"

text \<open>
  What the code reads from its surroundings: the platform, the configuration, and what the
  operating system answers when a symbolic link or a file cannot be written.
  \<^item> \<open>win32\<close>: \<open>process.platform === 'win32'\<close>;
  \<^item> \<open>repoStorageDir\<close>, \<open>getPromptsDirectory\<close>, \<open>repositoryConfigs\<close>, \<open>syncChatmode\<close>,
    \<open>syncInstructions\<close>, \<open>syncPrompt\<close>: the fields and the configuration of the same names;
  \<open>contextAvailable\<close>: \<open>this.context\<close> is set;
  \<^item> \<open>createFromUrl\<close>: \<open>GitProviderFactory.createFromUrl\<close>;
  \<^item> \<open>existsFollowsLinks\<close>: whether \<open>FileSystemManager.fileExists\<close> follows symbolic
    links (\<open>access\<close>/\<open>stat\<close>) or not (\<open>lstat\<close>);
  \<^item> \<open>symlinkFailure source target\<close>: the error of \<open>fs.symlink\<close> when the link may not be
    created (\<open>EPERM\<close> on Windows without developer mode), \<open>writeFailure path\<close>: the error
    of a write that is refused.
\<close>

record env =
  win32 :: bool
  repoStorageDir :: jsstring
  getPromptsDirectory :: jsstring
  repositoryConfigs :: "repoConfig list"
  syncChatmode :: bool
  syncInstructions :: bool
  syncPrompt :: bool
  contextAvailable :: bool
  createFromUrl :: "jsstring \<Rightarrow> thrown + gitApi"
  existsFollowsLinks :: bool
  symlinkFailure :: "jsstring \<Rightarrow> jsstring \<Rightarrow> thrown option"
  writeFailure :: "jsstring \<Rightarrow> thrown option"

subsection \<open>FileSystemManager and the Node.js file operations\<close>

text \<open>
  Following symbolic links: \<open>realpath n fs p\<close> is the path reached from \<open>p\<close> after at
  most \<open>n\<close> links, if it is not itself a link; the system gives up after 40 links.
\<close>

fun realpath :: "nat \<Rightarrow> filesystem \<Rightarrow> jsstring \<Rightarrow> jsstring option" where
  "realpath n fs p =
     (case fs p of
        Some (Symlink t) \<Rightarrow> (case n of 0 \<Rightarrow> None | Suc k \<Rightarrow> realpath k fs t)
      | _ \<Rightarrow> Some p)"

declare realpath.simps [simp del]

definition maxLinks :: nat where
  "maxLinks = 40"

text \<open>\<open>fs.stat\<close> (follows links) and \<open>fs.lstat\<close> (does not); \<open>None\<close> is \<open>ENOENT\<close>.\<close>

definition stat :: "filesystem \<Rightarrow> jsstring \<Rightarrow> node option" where
  "stat fs p = (case realpath maxLinks fs p of None \<Rightarrow> None | Some q \<Rightarrow> fs q)"

definition lstat :: "filesystem \<Rightarrow> jsstring \<Rightarrow> node option" where
  "lstat fs p = fs p"

fun isSymbolicLink :: "node \<Rightarrow> bool" where
  "isSymbolicLink (Symlink t) = True"
| "isSymbolicLink (File c) = False"

definition ENOENT :: "jsstring \<Rightarrow> thrown" where
  "ENOENT p = SystemError (js ''ENOENT'') (js ''ENOENT: no such file or directory, '' @ p)"

definition EEXIST :: "jsstring \<Rightarrow> thrown" where
  "EEXIST p = SystemError (js ''EEXIST'') (js ''EEXIST: file already exists, '' @ p)"

text \<open>
  Modelled from the spec: \<open>FileSystemManager\<close> (\<open>utils/fileSystem.ts\<close>) is not among the
  sources. The spec lists what it offers: existence checks, whole-file read and write of
  text, path joining in the layout \<open><root>/<name>\<close>. \<open>joinPath\<close> puts a \<open>/\<close> between
  its arguments, \<open>getBasename\<close> is the part after the last \<open>/\<close>, \<open>fileExists\<close> is true of
  a regular file and of a symbolic link (of one whose target exists, when it follows links),
  \<open>readFileContent\<close> and \<open>writeFileContent\<close> read and replace the whole text.
\<close>

definition joinPath :: "jsstring \<Rightarrow> jsstring \<Rightarrow> jsstring" where
  "joinPath a b = a @ js ''/'' @ b"

definition getBasename :: "jsstring \<Rightarrow> jsstring" where
  "getBasename p = last (split p (js ''/''))"

definition fileExists :: "env \<Rightarrow> filesystem \<Rightarrow> jsstring \<Rightarrow> bool" where
  "fileExists e fs p =
     (if existsFollowsLinks e then stat fs p \<noteq> None else lstat fs p \<noteq> None)"

definition readFileContent :: "filesystem \<Rightarrow> jsstring \<Rightarrow> thrown + jsstring" where
  "readFileContent fs p =
     (case stat fs p of Some (File content) \<Rightarrow> Inr content | _ \<Rightarrow> Inl (ENOENT p))"

definition writeFileContent ::
  "env \<Rightarrow> filesystem \<Rightarrow> jsstring \<Rightarrow> jsstring \<Rightarrow> thrown + filesystem" where
  "writeFileContent e fs p content =
     (case writeFailure e p of
        Some err \<Rightarrow> Inl err
      | None \<Rightarrow>
          (case realpath maxLinks fs p of
             None \<Rightarrow> Inl (SystemError (js ''ELOOP'') (js ''ELOOP: too many symbolic links, '' @ p))
           | Some q \<Rightarrow> Inr (fs(q \<mapsto> File content))))"

text \<open>
  \<open>fs.readFile\<close> and \<open>fs.writeFile\<close> of Node.js, \<open>fs.symlink\<close> (fails when the target path
  is taken, or when the system refuses), \<open>fs.unlink\<close> and \<open>vscode.workspace.fs.delete\<close>
  (both remove the entry itself, never what a link points to, and fail when there is none).
\<close>

definition readFile :: "filesystem \<Rightarrow> jsstring \<Rightarrow> thrown + jsstring" where
  "readFile fs p = readFileContent fs p"

definition writeFile :: "env \<Rightarrow> filesystem \<Rightarrow> jsstring \<Rightarrow> jsstring \<Rightarrow> thrown + filesystem" where
  "writeFile e fs p content = writeFileContent e fs p content"

definition symlink :: "env \<Rightarrow> filesystem \<Rightarrow> jsstring \<Rightarrow> jsstring \<Rightarrow> thrown + filesystem" where
  "symlink e fs source target =
     (if fs target \<noteq> None then Inl (EEXIST target)
      else case symlinkFailure e source target of
             Some err \<Rightarrow> Inl err
           | None \<Rightarrow> Inr (fs(target \<mapsto> Symlink source)))"

definition delete :: "filesystem \<Rightarrow> jsstring \<Rightarrow> thrown + filesystem" where
  "delete fs p = (if fs p = None then Inl (ENOENT p) else Inr (fs(p := None)))"

subsection \<open>Mirror paths and workspace names\<close>

text \<open>\<open>getRepositoryPath\<close>: the mirror directory of a repository.\<close>

definition getRepositoryPath :: "env \<Rightarrow> jsstring \<Rightarrow> jsstring" where
  "getRepositoryPath e repositoryUrl =
     (let slug = encodeRepositorySlug repositoryUrl in joinPath (repoStorageDir e) slug)"

text \<open>
  \<open>getRepositoryIdentifier\<close>. \<open>stripProtocol\<close> is \<open>replace(/^https?:\/\//, '')\<close>; the
  three parts of the function are its GitHub branch, its Azure DevOps branch and the
  fallback, \<open>None\<close> meaning that the branch does not return. In the last line an empty
  \<open>pathParts\<close> gives \<open>undefined || 'repo'\<close>. Nothing in the \<open>try\<close> block throws
  (\<open>split(...)[1]\<close> exists when the separator occurs), so the \<open>catch\<close> branch is never
  taken.
\<close>

definition stripProtocol :: "jsstring \<Rightarrow> jsstring" where
  "stripProtocol s =
     (if startsWith s (js ''http://'') then drop 7 s
      else if startsWith s (js ''https://'') then drop 8 s
      else s)"

definition githubIdentifier :: "jsstring \<Rightarrow> jsstring option" where
  "githubIdentifier identifier =
     (if includesStr identifier (js ''github.com/'')
      then (let parts = split (split identifier (js ''github.com/'') ! 1) (js ''/'')
            in if 2 \<le> length parts then Some (parts ! 0 @ js ''-'' @ parts ! 1) else None)
      else None)"

definition azureIdentifier :: "jsstring \<Rightarrow> jsstring option" where
  "azureIdentifier identifier =
     (if includesStr identifier (js ''dev.azure.com/'')
      then (let parts = filter (\<lambda>p. p \<noteq> [] \<and> p \<noteq> js ''_git'') (split identifier (js ''/''))
            in if 4 \<le> length parts
               then Some (parts ! 1 @ js ''-'' @ parts ! 2 @ js ''-'' @ parts ! 3)
               else None)
      else None)"

definition fallbackIdentifier :: "jsstring \<Rightarrow> jsstring" where
  "fallbackIdentifier identifier =
     (let pathParts = filter (\<lambda>p. p \<noteq> []) (split identifier (js ''/''))
      in if 2 \<le> length pathParts
         then pathParts ! (length pathParts - 2) @ js ''-'' @ pathParts ! (length pathParts - 1)
         else if pathParts = [] then js ''repo''
         else pathParts ! (length pathParts - 1))"

definition getRepositoryIdentifier :: "jsstring \<Rightarrow> jsstring" where
  "getRepositoryIdentifier repositoryUrl =
     (let identifier =
            stripSuffix (js ''.git'') (stripPrefix (js ''www.'') (stripProtocol repositoryUrl))
      in case githubIdentifier identifier of
           Some r \<Rightarrow> r
         | None \<Rightarrow>
             (case azureIdentifier identifier of
                Some r \<Rightarrow> r
              | None \<Rightarrow> fallbackIdentifier identifier))"

text \<open>
  \<open>getUniqueWorkspaceName\<close>. \<open>reposWithFile\<close> is the list the loop collects: the URLs of
  the configured repositories whose mirror directory holds \<open>fileName\<close>.
\<close>

definition reposWithFile :: "env \<Rightarrow> filesystem \<Rightarrow> jsstring \<Rightarrow> jsstring list" where
  "reposWithFile e fs fileName =
     map url (filter (\<lambda>repoConfig.
        fileExists e fs (joinPath (getRepositoryPath e (url repoConfig)) fileName))
       (repositoryConfigs e))"

definition getUniqueWorkspaceName :: "env \<Rightarrow> filesystem \<Rightarrow> jsstring \<Rightarrow> jsstring \<Rightarrow> jsstring" where
  "getUniqueWorkspaceName e fs fileName repositoryUrl =
     (if length (reposWithFile e fs fileName) \<le> 1 then fileName
      else
        (let repoIdentifier = getRepositoryIdentifier repositoryUrl;
             lastDotIndex = lastIndexOf fileName dot
         in if 0 < lastDotIndex
            then (let baseName = take (nat lastDotIndex) fileName;
                      extension = drop (nat lastDotIndex) fileName
                  in baseName @ js ''@'' @ repoIdentifier @ extension)
            else fileName @ js ''@'' @ repoIdentifier))"

section \<open>syncManager.ts: activation and deactivation\<close>

text \<open>
  An operation on the file system returns what it throws or returns (\<open>Inl\<close> the thrown
  value) together with the file system it leaves behind, also when it throws.

  \<open>createPromptSymlink\<close>: an existing target is deleted, the link is created; when that is
  refused with \<open>EPERM\<close> on Windows the source text is copied instead; at the end the target
  must exist.
\<close>

definition copyFallback ::
  "env \<Rightarrow> filesystem \<Rightarrow> jsstring \<Rightarrow> jsstring \<Rightarrow> thrown + filesystem" where
  "copyFallback e fs sourcePath targetPath =
     (case readFile fs sourcePath of
        Inl copyError \<Rightarrow> Inl copyError
      | Inr content \<Rightarrow> writeFile e fs targetPath content)"

definition verifyCreated :: "env \<Rightarrow> filesystem \<Rightarrow> jsstring \<Rightarrow> (thrown + unit) \<times> filesystem" where
  "verifyCreated e fs targetPath =
     (if fileExists e fs targetPath then (Inr (), fs)
      else (Inl (Error (js ''Failed to create file at: '' @ targetPath)), fs))"

definition linkOrCopy ::
  "env \<Rightarrow> filesystem \<Rightarrow> jsstring \<Rightarrow> jsstring \<Rightarrow> (thrown + unit) \<times> filesystem" where
  "linkOrCopy e fs sourcePath targetPath =
     (case symlink e fs sourcePath targetPath of
        Inr fs' \<Rightarrow> verifyCreated e fs' targetPath
      | Inl symlinkError \<Rightarrow>
          if win32 e \<and> errorCode symlinkError = Some (js ''EPERM'')
          then (case copyFallback e fs sourcePath targetPath of
                  Inl copyError \<Rightarrow> (Inl copyError, fs)
                | Inr fs' \<Rightarrow> verifyCreated e fs' targetPath)
          else (Inl symlinkError, fs))"

definition createPromptSymlink ::
  "env \<Rightarrow> filesystem \<Rightarrow> jsstring \<Rightarrow> jsstring \<Rightarrow> (thrown + unit) \<times> filesystem" where
  "createPromptSymlink e fs sourcePath targetPath =
     (if fileExists e fs targetPath
      then (case delete fs targetPath of
              Inl err \<Rightarrow> (Inl err, fs)
            | Inr fs' \<Rightarrow> linkOrCopy e fs' sourcePath targetPath)
      else linkOrCopy e fs sourcePath targetPath)"

text \<open>
  \<open>removePromptSymlink\<close>: a symbolic link is deleted; a regular file is deleted on Windows
  and kept elsewhere. An error of \<open>lstat\<close> or of the deletion is logged and thrown again.
\<close>

definition removePromptSymlink ::
  "env \<Rightarrow> filesystem \<Rightarrow> jsstring \<Rightarrow> (thrown + unit) \<times> filesystem" where
  "removePromptSymlink e fs targetPath =
     (if fileExists e fs targetPath
      then (case lstat fs targetPath of
              None \<Rightarrow> (Inl (ENOENT targetPath), fs)
            | Some stats \<Rightarrow>
                if isSymbolicLink stats \<or> win32 e
                then (case delete fs targetPath of
                        Inl err \<Rightarrow> (Inl err, fs)
                      | Inr fs' \<Rightarrow> (Inr (), fs'))
                else (Inr (), fs))
      else (Inr (), fs))"

text \<open>
  \<open>activatePrompt\<close>; the optional \<open>repositoryUrl\<close> is \<open>None\<close> when it is \<open>undefined\<close>, and
  \<open>!repositoryUrl\<close> also holds of the empty string. \<open>deactivatePrompt\<close>.
\<close>

definition activatePrompt ::
  "env \<Rightarrow> filesystem \<Rightarrow> jsstring \<Rightarrow> jsstring option \<Rightarrow> (thrown + jsstring) \<times> filesystem" where
  "activatePrompt e fs promptPath repositoryUrl =
     (case repositoryUrl of
        None \<Rightarrow>
          (Inl (Error (js ''Repository URL is required to activate prompt: '' @ promptPath)), fs)
      | Some repoUrl \<Rightarrow>
          if repoUrl = []
          then (Inl (Error (js ''Repository URL is required to activate prompt: '' @ promptPath)), fs)
          else
            (let repoPath = getRepositoryPath e repoUrl;
                 sourcePath = joinPath repoPath promptPath
             in if \<not> fileExists e fs sourcePath
                then (Inl (Error (js ''Source file does not exist: '' @ sourcePath)), fs)
                else
                  (let workspaceName = getUniqueWorkspaceName e fs promptPath repoUrl;
                       targetPath = joinPath (getPromptsDirectory e) workspaceName
                   in case createPromptSymlink e fs sourcePath targetPath of
                        (Inl err, fs') \<Rightarrow> (Inl err, fs')
                      | (Inr u, fs') \<Rightarrow>
                          if fileExists e fs' targetPath then (Inr workspaceName, fs')
                          else (Inl (Error (js ''Target file was not created: '' @ targetPath)),
                                fs'))))"

definition deactivatePrompt ::
  "env \<Rightarrow> filesystem \<Rightarrow> jsstring \<Rightarrow> (thrown + unit) \<times> filesystem" where
  "deactivatePrompt e fs promptPath =
     (let targetPath = joinPath (getPromptsDirectory e) promptPath
      in removePromptSymlink e fs targetPath)"

section \<open>syncManager.ts: the sync pass\<close>

record RepositorySyncResult =
  repository :: jsstring
  success :: bool
  itemsUpdated :: nat
  error :: "jsstring option"

record MultiRepositorySyncResult =
  overallSuccess :: bool
  totalItemsUpdated :: nat
  repositories :: "RepositorySyncResult list"
  errors :: "jsstring list"

text \<open>The constants of \<open>constant.ts\<close>.\<close>

definition REPO_SYNC_CHAT_MODE_PATH :: jsstring where
  "REPO_SYNC_CHAT_MODE_PATH = js ''agents/''"

definition REPO_SYNC_CHAT_MODE_LEGACY_PATH :: jsstring where
  "REPO_SYNC_CHAT_MODE_LEGACY_PATH = js ''chatmodes/''"

definition REPO_SYNC_CHAT_MODE_LEGACY_SINGULAR_PATH :: jsstring where
  "REPO_SYNC_CHAT_MODE_LEGACY_SINGULAR_PATH = js ''chatmode/''"

definition REPO_SYNC_INSTRUCTIONS_PATH :: jsstring where
  "REPO_SYNC_INSTRUCTIONS_PATH = js ''instructions/''"

definition REPO_SYNC_PROMPT_PATH :: jsstring where
  "REPO_SYNC_PROMPT_PATH = js ''prompts/''"

text \<open>
  \<open>filterRelevantFiles\<close>; \<open>normalizeSeparators\<close> is
  \<open>replace(/\\/g, '/').replace(/^\/+/, '')\<close>.
\<close>

definition normalizeSeparators :: "jsstring \<Rightarrow> jsstring" where
  "normalizeSeparators p = dropWhile (\<lambda>c. c = slash) (replaceAll backslash slash p)"

definition allowedPaths :: "env \<Rightarrow> jsstring list" where
  "allowedPaths e =
     (if syncChatmode e
      then [REPO_SYNC_CHAT_MODE_PATH, REPO_SYNC_CHAT_MODE_LEGACY_PATH,
            REPO_SYNC_CHAT_MODE_LEGACY_SINGULAR_PATH]
      else [])
     @ (if syncInstructions e then [REPO_SYNC_INSTRUCTIONS_PATH] else [])
     @ (if syncPrompt e then [REPO_SYNC_PROMPT_PATH] else [])"

definition filterRelevantFiles :: "env \<Rightarrow> gitTreeItem list \<Rightarrow> gitTreeItem list" where
  "filterRelevantFiles e tree =
     (if allowedPaths e = [] then []
      else filter (\<lambda>item.
             (let isBlob = (type item = js ''blob'');
                  normalizedPath = normalizeSeparators (path item);
                  matchesPath = list_ex (\<lambda>allowed.
                     startsWith normalizedPath (normalizeSeparators allowed)) (allowedPaths e);
                  isRelevantFile = (endsWith (path item) (js ''.md'') \<or>
                                    endsWith (path item) (js ''.txt''))
              in isBlob \<and> matchesPath \<and> isRelevantFile)) tree)"

text \<open>
  \<open>shouldUpdateFile\<close>: true when the file does not exist, when its text differs, and when
  reading it fails.
\<close>

definition shouldUpdateFile :: "env \<Rightarrow> filesystem \<Rightarrow> jsstring \<Rightarrow> jsstring \<Rightarrow> bool" where
  "shouldUpdateFile e fs localPath newContent =
     (if \<not> fileExists e fs localPath then True
      else (case readFileContent fs localPath of
              Inl err \<Rightarrow> True
            | Inr existingContent \<Rightarrow> existingContent \<noteq> newContent))"

text \<open>
  \<open>updateActivePromptSymlink\<close>: when the workspace name of the file is a symbolic link it
  is removed and created again; every error is caught and logged, so only the file system
  is returned.
\<close>

definition updateActivePromptSymlink ::
  "env \<Rightarrow> filesystem \<Rightarrow> jsstring \<Rightarrow> jsstring \<Rightarrow> filesystem" where
  "updateActivePromptSymlink e fs fileName repositoryUrl =
     (let workspaceName = getUniqueWorkspaceName e fs fileName repositoryUrl;
          workspacePath = joinPath (getPromptsDirectory e) workspaceName
      in if fileExists e fs workspacePath
         then (case lstat fs workspacePath of
                 None \<Rightarrow> fs
               | Some stats \<Rightarrow>
                   if isSymbolicLink stats
                   then (let repoPath = getRepositoryPath e repositoryUrl;
                             newSourcePath = joinPath repoPath fileName
                         in case removePromptSymlink e fs workspacePath of
                              (Inl err, fs') \<Rightarrow> fs'
                            | (Inr u, fs') \<Rightarrow>
                                snd (createPromptSymlink e fs' newSourcePath workspacePath))
                   else fs)
         else fs)"

text \<open>
  \<open>syncFiles\<close>. \<open>syncRepositoryUrl\<close> is the URL the function builds from the provider
  name; \<open>syncFilesLoop\<close> is its \<open>for\<close> loop with its counter \<open>updated\<close>: a failed
  fetch returns the count so far, an empty text is skipped, a failed write is logged and the
  loop goes on.
\<close>

definition syncRepositoryUrl :: "gitApi \<Rightarrow> jsstring \<Rightarrow> jsstring \<Rightarrow> jsstring" where
  "syncRepositoryUrl api owner repo =
     (let providerName = getProviderName api
      in if providerName = js ''github'' then js ''https://github.com/'' @ owner @ js ''/'' @ repo
         else if providerName = js ''azure'' then js ''https://dev.azure.com/'' @ owner @ js ''/'' @ repo
         else providerName @ js ''/'' @ owner @ js ''/'' @ repo)"

fun syncFilesLoop ::
  "env \<Rightarrow> gitApi \<Rightarrow> jsstring \<Rightarrow> jsstring \<Rightarrow> jsstring \<Rightarrow> jsstring \<Rightarrow> gitTreeItem list
     \<Rightarrow> nat \<Rightarrow> filesystem \<Rightarrow> nat \<times> filesystem" where
  "syncFilesLoop e api owner repo branchName repositoryUrl [] updated fs = (updated, fs)"
| "syncFilesLoop e api owner repo branchName repositoryUrl (file # files) updated fs =
     (case getFileContent api owner repo (path file) branchName of
        Inl err \<Rightarrow> (updated, fs)
      | Inr content \<Rightarrow>
          (let fileName = getBasename (path file);
               repoFilePath = joinPath (getRepositoryPath e repositoryUrl) fileName
           in if content = []
              then syncFilesLoop e api owner repo branchName repositoryUrl files updated fs
              else if shouldUpdateFile e fs repoFilePath content
              then (case writeFileContent e fs repoFilePath content of
                      Inl err \<Rightarrow>
                        syncFilesLoop e api owner repo branchName repositoryUrl files updated fs
                    | Inr fs' \<Rightarrow>
                        syncFilesLoop e api owner repo branchName repositoryUrl files
                          (updated + 1)
                          (updateActivePromptSymlink e fs' fileName repositoryUrl))
              else syncFilesLoop e api owner repo branchName repositoryUrl files updated fs))"

definition syncFiles ::
  "env \<Rightarrow> filesystem \<Rightarrow> gitApi \<Rightarrow> jsstring \<Rightarrow> jsstring \<Rightarrow> gitTreeItem list \<Rightarrow> jsstring
     \<Rightarrow> nat \<times> filesystem" where
  "syncFiles e fs api owner repo files branchName =
     syncFilesLoop e api owner repo branchName (syncRepositoryUrl api owner repo) files 0 fs"

text \<open>
  \<open>syncMultipleRepositories\<close>. \<open>fetchTree\<close> is the part of the \<open>try\<close> block up to the
  tree: the provider, the authentication, the parsed URL, the tree; \<open>Inl\<close> is what it
  throws. The \<open>gitProviders\<close> cache only avoids constructing a provider twice: it is filled
  under the same check of the context, which is never unset, so a lookup is
  \<open>createFromUrl\<close>. \<open>syncRepository\<close> is one iteration of the loop: the entry pushed to
  \<open>results\<close>, the lines pushed to \<open>errors\<close> and the file system; its first case is the
  \<open>catch\<close> block.
\<close>

definition authenticate :: "gitApi \<Rightarrow> thrown + unit" where
  "authenticate api =
     (case checkAuthentication api of
        Inl err \<Rightarrow> Inl err
      | Inr isAuthenticated \<Rightarrow>
          if isAuthenticated then Inr ()
          else (case recheckAuthentication api of
                  Inl err \<Rightarrow> Inl err
                | Inr isAuthenticated' \<Rightarrow>
                    if isAuthenticated' then Inr ()
                    else (case requestAuthentication api of
                            Inl err \<Rightarrow> Inl err
                          | Inr authSuccess \<Rightarrow>
                              if authSuccess then Inr ()
                              else Inl (Error (getProviderName api @ js '' authentication failed'')))))"

definition fetchTree ::
  "env \<Rightarrow> repoConfig \<Rightarrow> thrown + (gitApi \<times> jsstring \<times> jsstring \<times> gitTreeItem list)" where
  "fetchTree e entry =
     (if \<not> contextAvailable e
      then Inl (Error (js ''Extension context not available for git provider initialization''))
      else (case createFromUrl e (url entry) of
              Inl err \<Rightarrow> Inl err
            | Inr api \<Rightarrow>
                (case authenticate api of
                   Inl err \<Rightarrow> Inl err
                 | Inr u \<Rightarrow>
                     (case parseRepositoryUrl api (url entry) of
                        Inl err \<Rightarrow> Inl err
                      | Inr (owner, repo) \<Rightarrow>
                          (case getRepositoryTree api owner repo (branch entry) of
                             Inl err \<Rightarrow> Inl err
                           | Inr tree \<Rightarrow> Inr (api, owner, repo, tree))))))"

definition promptLocation :: jsstring where
  "promptLocation =
     REPO_SYNC_CHAT_MODE_PATH @ js '', '' @ REPO_SYNC_CHAT_MODE_LEGACY_PATH @ js '', ''
     @ REPO_SYNC_CHAT_MODE_LEGACY_SINGULAR_PATH @ js '', '' @ REPO_SYNC_INSTRUCTIONS_PATH
     @ js '', '' @ REPO_SYNC_PROMPT_PATH"

definition syncRepository ::
  "env \<Rightarrow> filesystem \<Rightarrow> repoConfig \<Rightarrow> RepositorySyncResult \<times> jsstring list \<times> filesystem" where
  "syncRepository e fs entry =
     (let repoUrl = url entry
      in case fetchTree e entry of
           Inl err \<Rightarrow>
             (let message = errorMessage err
              in (\<lparr> repository = repoUrl, success = False, itemsUpdated = 0,
                     error = Some message \<rparr>,
                  [repoUrl @ js '': '' @ message], fs))
         | Inr (api, owner, repo, tree) \<Rightarrow>
             (let relevantFiles = filterRelevantFiles e tree
              in if length relevantFiles = 0
                 then (\<lparr> repository = repoUrl, success = False, itemsUpdated = 0,
                         error = Some (js ''No relevant files found, make sure prompts are in valid directories: ''
                                       @ promptLocation) \<rparr>,
                       [repoUrl @ js '': No relevant files found''], fs)
                 else (case syncFiles e fs api owner repo relevantFiles (branch entry) of
                         (n, fs') \<Rightarrow>
                           (\<lparr> repository = repoUrl, success = True, itemsUpdated = n,
                               error = None \<rparr>, [], fs'))))"

fun syncRepositories ::
  "env \<Rightarrow> repoConfig list \<Rightarrow> RepositorySyncResult list \<Rightarrow> nat \<Rightarrow> jsstring list \<Rightarrow> filesystem
     \<Rightarrow> RepositorySyncResult list \<times> nat \<times> jsstring list \<times> filesystem" where
  "syncRepositories e [] results totalUpdated errs fs = (results, totalUpdated, errs, fs)"
| "syncRepositories e (entry # rest) results totalUpdated errs fs =
     (case syncRepository e fs entry of
        (result, lines, fs') \<Rightarrow>
          syncRepositories e rest (results @ [result])
            (if success result then totalUpdated + itemsUpdated result else totalUpdated) (errs @ lines) fs')"

definition syncMultipleRepositories ::
  "env \<Rightarrow> filesystem \<Rightarrow> MultiRepositorySyncResult \<times> filesystem" where
  "syncMultipleRepositories e fs =
     (case syncRepositories e (repositoryConfigs e) [] 0 [] fs of
        (results, totalUpdated, errs, fs') \<Rightarrow>
          (\<lparr> overallSuccess = list_all success results, totalItemsUpdated = totalUpdated,
              repositories = results, errors = errs \<rparr>, fs'))"


subsection \<open>What a pass writes to the mirror\<close>

text \<open>
  The notions used to state when a second pass finds nothing to update. \<open>fileAttempts\<close>
  are the name and text of every file \<open>syncFiles\<close> gets to write: the files fetched with
  a non-empty text, up to the first fetch that fails. \<open>mirrorWrites\<close> are their mirror
  paths and texts for one configured repository, \<open>passWrites\<close> those of a whole pass.
  \<open>clobberFree\<close>: no path is written with two different texts. \<open>noLinks\<close>: none of
  the paths is a symbolic link.
\<close>

fun fileAttempts ::
  "gitApi \<Rightarrow> jsstring \<Rightarrow> jsstring \<Rightarrow> jsstring \<Rightarrow> gitTreeItem list \<Rightarrow> (jsstring \<times> jsstring) list" where
  "fileAttempts api owner repo branchName [] = []"
| "fileAttempts api owner repo branchName (file # files) =
     (case getFileContent api owner repo (path file) branchName of
        Inl err \<Rightarrow> []
      | Inr content \<Rightarrow>
          (if content = [] then [] else [(getBasename (path file), content)])
          @ fileAttempts api owner repo branchName files)"

definition mirrorWrites :: "env \<Rightarrow> repoConfig \<Rightarrow> (jsstring \<times> jsstring) list" where
  "mirrorWrites e entry =
     (case fetchTree e entry of
        Inl err \<Rightarrow> []
      | Inr (api, owner, repo, tree) \<Rightarrow>
          map (\<lambda>(fileName, content).
                 (joinPath (getRepositoryPath e (syncRepositoryUrl api owner repo)) fileName, content))
            (fileAttempts api owner repo (branch entry) (filterRelevantFiles e tree)))"

definition passWrites :: "env \<Rightarrow> (jsstring \<times> jsstring) list" where
  "passWrites e = concat (map (mirrorWrites e) (repositoryConfigs e))"

definition clobberFree :: "(jsstring \<times> jsstring) list \<Rightarrow> bool" where
  "clobberFree ws =
     list_all (\<lambda>(p, content). list_all (\<lambda>(p', content'). p = p' \<longrightarrow> content = content') ws) ws"

fun isLink :: "node option \<Rightarrow> bool" where
  "isLink (Some (Symlink t)) = True"
| "isLink _ = False"

definition noLinks :: "filesystem \<Rightarrow> (jsstring \<times> jsstring) list \<Rightarrow> bool" where
  "noLinks fs ws = list_all (\<lambda>(p, content). \<not> isLink (fs p)) ws"

text \<open>
  One step of the loop of \<open>syncFiles\<close> for a file with a non-empty text: whether it counts
  as updated, and the file system after it. \<open>applyWrites\<close> is the loop over such steps.
\<close>

definition applyWrite ::
  "env \<Rightarrow> jsstring \<Rightarrow> jsstring \<times> jsstring \<Rightarrow> filesystem \<Rightarrow> bool \<times> filesystem" where
  "applyWrite e repositoryUrl attempt fs =
     (case attempt of
        (fileName, content) \<Rightarrow>
          (let repoFilePath = joinPath (getRepositoryPath e repositoryUrl) fileName
           in if shouldUpdateFile e fs repoFilePath content
              then (case writeFileContent e fs repoFilePath content of
                      Inl err \<Rightarrow> (False, fs)
                    | Inr fs' \<Rightarrow> (True, updateActivePromptSymlink e fs' fileName repositoryUrl))
              else (False, fs)))"

fun applyWrites ::
  "env \<Rightarrow> jsstring \<Rightarrow> (jsstring \<times> jsstring) list \<Rightarrow> nat \<Rightarrow> filesystem \<Rightarrow> nat \<times> filesystem" where
  "applyWrites e repositoryUrl [] updated fs = (updated, fs)"
| "applyWrites e repositoryUrl (attempt # attempts) updated fs =
     (case applyWrite e repositoryUrl attempt fs of
        (changed, fs') \<Rightarrow>
          applyWrites e repositoryUrl attempts (if changed then updated + 1 else updated) fs')"

text \<open>A write is settled when the path holds the text, or when writing the path is refused.\<close>

definition settled :: "env \<Rightarrow> filesystem \<Rightarrow> jsstring \<times> jsstring \<Rightarrow> bool" where
  "settled e fs w = (case w of (p, content) \<Rightarrow> fs p = Some (File content) \<or> writeFailure e p \<noteq> None)"

section \<open>Concrete configurations and file systems\<close>

text \<open>
  A configuration with three repositories, on a platform with symbolic links; the first
  two are different repositories on different hosts with the same owner and name.
\<close>

definition exMain :: jsstring where "exMain = js ''main''"
definition exR1 :: jsstring where "exR1 = js ''https://github.com/o/r''"
definition exR2 :: jsstring where "exR2 = js ''https://gitlab.com/o/r''"
definition exR3 :: jsstring where "exR3 = js ''https://github.com/p/q''"

definition exEnv :: env where
  "exEnv = \<lparr> win32 = False, repoStorageDir = js ''/s/repos'', getPromptsDirectory = js ''/s/prompts'',
     repositoryConfigs = [\<lparr> url = exR1, branch = exMain \<rparr>, \<lparr> url = exR2, branch = exMain \<rparr>,
                          \<lparr> url = exR3, branch = exMain \<rparr>],
     syncChatmode = True, syncInstructions = True, syncPrompt = True, contextAvailable = True,
     createFromUrl = (\<lambda>repoUrl. Inl (Error (js ''Unsupported repository URL''))),
     existsFollowsLinks = True, symlinkFailure = (\<lambda>source target. None),
     writeFailure = (\<lambda>p. None) \<rparr>"

text \<open>The same on Windows without the right to create symbolic links.\<close>

definition exWinEnv :: env where
  "exWinEnv = exEnv \<lparr> win32 := True,
     symlinkFailure := (\<lambda>source target.
        Some (SystemError (js ''EPERM'') (js ''EPERM: operation not permitted, symlink''))) \<rparr>"

text \<open>The mirror path of a file, as \<open>activatePrompt\<close> computes its source path.\<close>

definition mirrorFile :: "env \<Rightarrow> jsstring \<Rightarrow> jsstring \<Rightarrow> jsstring" where
  "mirrorFile e repositoryUrl fileName = joinPath (getRepositoryPath e repositoryUrl) fileName"

definition activeFile :: "env \<Rightarrow> jsstring \<Rightarrow> jsstring" where
  "activeFile e workspaceName = joinPath (getPromptsDirectory e) workspaceName"

text \<open>All three mirrors hold \<open>x.prompt.md\<close>; the first also holds \<open>a.md\<close>.\<close>

definition exFs :: filesystem where
  "exFs = [mirrorFile exEnv exR1 (js ''x.prompt.md'') \<mapsto> File (js ''one''),
           mirrorFile exEnv exR2 (js ''x.prompt.md'') \<mapsto> File (js ''two''),
           mirrorFile exEnv exR3 (js ''x.prompt.md'') \<mapsto> File (js ''three''),
           mirrorFile exEnv exR1 (js ''a.md'') \<mapsto> File (js ''text'')]"

text \<open>
  The same with a file \<open>a.md\<close> of the user's own in the activation directory, and a file
  system that holds nothing but a note of the user's.
\<close>

definition exUserFs :: filesystem where
  "exUserFs = exFs(activeFile exEnv (js ''a.md'') \<mapsto> File (js ''mine''))"

definition exNotesFs :: filesystem where
  "exNotesFs = [activeFile exEnv (js ''notes.md'') \<mapsto> File (js ''mine'')]"

text \<open>
  A provider for \<open>https://github.com/o/r\<close> whose tree has two prompts with the same
  base name \<open>x.md\<close> and different texts, and a provider whose tree has no file in a
  category directory.
\<close>

definition exTree :: "gitTreeItem list" where
  "exTree = [\<lparr> path = js ''prompts/a/x.md'', type = js ''blob'' \<rparr>,
             \<lparr> path = js ''prompts/b/x.md'', type = js ''blob'' \<rparr>]"

definition exApi :: gitApi where
  "exApi = \<lparr> getProviderName = js ''github'', checkAuthentication = Inr True,
     recheckAuthentication = Inr True, requestAuthentication = Inr True,
     parseRepositoryUrl = (\<lambda>repoUrl. Inr (js ''o'', js ''r'')),
     getRepositoryTree = (\<lambda>owner repo branchName. Inr exTree),
     getFileContent = (\<lambda>owner repo filePath branchName.
        if filePath = js ''prompts/a/x.md'' then Inr (js ''A'')
        else if filePath = js ''prompts/b/x.md'' then Inr (js ''B'')
        else Inl (Error (js ''Not Found''))) \<rparr>"

definition exEmptyApi :: gitApi where
  "exEmptyApi = exApi \<lparr> parseRepositoryUrl := (\<lambda>repoUrl. Inr (js ''p'', js ''q'')),
     getRepositoryTree := (\<lambda>owner repo branchName.
        Inr [\<lparr> path = js ''README.md'', type = js ''blob'' \<rparr>,
             \<lparr> path = js ''prompts'', type = js ''tree'' \<rparr>]) \<rparr>"

text \<open>
  Three repositories: no provider for the first, no relevant file in the second, the two
  prompts in the third. And the third alone.
\<close>

definition exSyncEnv :: env where
  "exSyncEnv = exEnv \<lparr>
     repositoryConfigs := [\<lparr> url = exR2, branch = exMain \<rparr>, \<lparr> url = exR3, branch = exMain \<rparr>,
                           \<lparr> url = exR1, branch = exMain \<rparr>],
     createFromUrl := (\<lambda>repoUrl.
        if repoUrl = exR1 then Inr exApi
        else if repoUrl = exR3 then Inr exEmptyApi
        else Inl (Error (js ''Unsupported repository URL''))) \<rparr>"

definition exDupEnv :: env where
  "exDupEnv = exSyncEnv \<lparr> repositoryConfigs := [\<lparr> url = exR1, branch = exMain \<rparr>] \<rparr>"

text \<open>The same repository alone, with a tree of one prompt.\<close>

definition exOneEnv :: env where
  "exOneEnv = exDupEnv \<lparr> createFromUrl := (\<lambda>repoUrl.
     Inr (exApi \<lparr> getRepositoryTree := (\<lambda>owner repo branchName.
            Inr [\<lparr> path = js ''prompts/a/x.md'', type = js ''blob'' \<rparr>]) \<rparr>)) \<rparr>"

section \<open>Proofs: the slug is a reversible encoding\<close>


lemma unat8: "n < 256 \<Longrightarrow> unat (of_nat n :: 8 word) = n"
  by (simp add: unat_of_nat)

lemma unat16: "n < 65536 \<Longrightarrow> unat (of_nat n :: 16 word) = n"
  by (simp add: unat_of_nat)

lemma u8_lt: "unat (b :: 8 word) < 256"
  using unsigned_less [of b, where 'a = nat] by simp

lemma u16_lt: "unat (c :: 16 word) < 65536"
  using unsigned_less [of c, where 'a = nat] by simp

lemma byte_eqI: "n = unat (b :: 8 word) \<Longrightarrow> of_nat n = b"
  by simp

lemma hi4: "b < 256 \<Longrightarrow> b div 16 < (16::nat)"
  by (simp add: less_mult_imp_div_less)

lemma hi2: "c < 256 \<Longrightarrow> c div 64 < (4::nat)"
  by (simp add: less_mult_imp_div_less)

lemma unsextets_sextets: "unsextets (sextets buf) = buf"
proof (induction buf rule: sextets.induct)
  case (1 a b c rest)
  have b: "unat b div 16 < 16" and c: "unat c div 64 < 4"
    by (simp_all add: hi4 hi2 u8_lt)
  have "unat a div 4 * 4 + (unat a mod 4 * 16 + unat b div 16) div 16 = unat a"
    using b by simp
  then have f1: "of_nat (unat a div 4 * 4 + (unat a mod 4 * 16 + unat b div 16) div 16) = a"
    by (rule byte_eqI)
  have "(unat a mod 4 * 16 + unat b div 16) mod 16 * 16 + (unat b mod 16 * 4 + unat c div 64) div 4
        = unat b"
    using b c by simp
  then have f2: "of_nat ((unat a mod 4 * 16 + unat b div 16) mod 16 * 16
        + (unat b mod 16 * 4 + unat c div 64) div 4) = b"
    by (rule byte_eqI)
  have "(unat b mod 16 * 4 + unat c div 64) mod 4 * 64 + unat c mod 64 = unat c"
    using c by simp
  then have f3: "of_nat ((unat b mod 16 * 4 + unat c div 64) mod 4 * 64 + unat c mod 64) = c"
    by (rule byte_eqI)
  show ?case
    using 1 by (simp only: sextets.simps unsextets.simps append_Cons append_Nil f1 f2 f3)
next
  case (2 a b)
  have b: "unat b div 16 < 16"
    by (simp add: hi4 u8_lt)
  have "unat a div 4 * 4 + (unat a mod 4 * 16 + unat b div 16) div 16 = unat a"
    using b by simp
  then have f1: "of_nat (unat a div 4 * 4 + (unat a mod 4 * 16 + unat b div 16) div 16) = a"
    by (rule byte_eqI)
  have "(unat a mod 4 * 16 + unat b div 16) mod 16 * 16 + (unat b mod 16 * 4) div 4 = unat b"
    using b by simp
  then have f2: "of_nat ((unat a mod 4 * 16 + unat b div 16) mod 16 * 16
        + (unat b mod 16 * 4) div 4) = b"
    by (rule byte_eqI)
  show ?case
    by (simp only: sextets.simps unsextets.simps f1 f2)
next
  case (3 a)
  have "unat a div 4 * 4 + (unat a mod 4 * 16) div 16 = unat a"
    by simp
  then have f1: "of_nat (unat a div 4 * 4 + (unat a mod 4 * 16) div 16) = a"
    by (rule byte_eqI)
  show ?case
    by (simp only: sextets.simps unsextets.simps f1)
next
  case 4
  then show ?case by simp
qed

lemma sextet_bounds:
  fixes a b c :: nat
  assumes "a < 256" "b < 256" "c < 256"
  shows "a div 4 < 64" "a mod 4 * 16 + b div 16 < 64" "b mod 16 * 4 + c div 64 < 64"
    "c mod 64 < 64" "b mod 16 * 4 < 64" "a mod 4 * 16 < 64"
proof -
  have "a mod 4 < 4" "b mod 16 < 16" "b div 16 < 16" "c div 64 < 4"
    using assms by (simp_all add: hi4 hi2)
  then show "a mod 4 * 16 + b div 16 < 64" "b mod 16 * 4 + c div 64 < 64"
    "b mod 16 * 4 < 64" "a mod 4 * 16 < 64"
    by linarith+
  show "a div 4 < 64" using assms(1) by (simp add: less_mult_imp_div_less)
  show "c mod 64 < 64" by simp
qed

lemma sextets_lt: "n \<in> set (sextets buf) \<Longrightarrow> n < 64"
proof (induction buf rule: sextets.induct)
  case (1 a b c rest)
  note bs = sextet_bounds [OF u8_lt [of a] u8_lt [of b] u8_lt [of c]]
  from 1 show ?case
    using bs(1-4) by (simp only: sextets.simps set_append set_simps Un_iff insert_iff) blast
next
  case (2 a b)
  note bs = sextet_bounds [OF u8_lt [of a] u8_lt [of b] u8_lt [of b]]
  from 2 show ?case
    using bs(1,2,5) by (simp only: sextets.simps set_simps insert_iff) blast
next
  case (3 a)
  note bs = sextet_bounds [OF u8_lt [of a] u8_lt [of a] u8_lt [of a]]
  from 3 show ?case
    using bs(1,6) by (simp only: sextets.simps set_simps insert_iff) blast
next
  case 4
  then show ?case by simp
qed

lemma unat_b64char:
  "unat (b64char n) =
     (if n < 26 then n + 65 else if n < 52 then n + 71 else if n < 62 then n - 4
      else if n = 62 then 45 else 95)"
proof -
  have a: "n < 26 \<Longrightarrow> unat (of_nat (n + 65) :: 16 word) = n + 65"
    by (intro unat16) simp
  have b: "n < 52 \<Longrightarrow> unat (of_nat (n + 71) :: 16 word) = n + 71"
    by (intro unat16) simp
  have c: "n < 62 \<Longrightarrow> unat (of_nat (n - 4) :: 16 word) = n - 4"
    by (intro unat16) simp
  show ?thesis
    unfolding b64char_def using a b c by (simp del: of_nat_add of_nat_diff)
qed

lemma lowByte_b64char: "lowByte (b64char n) = unat (b64char n)"
  unfolding lowByte_def unat_b64char by simp

lemma unbase64_b64char: "n < 64 \<Longrightarrow> unbase64 (b64char n) = Some n"
  unfolding unbase64_def lowByte_b64char unat_b64char Let_def by auto

lemma b64char_not_pad: "lowByte (b64char n) \<noteq> 61"
  unfolding lowByte_b64char unat_b64char by auto

lemma map_filter_b64: "\<forall>n \<in> set ns. n < 64 \<Longrightarrow> List.map_filter unbase64 (map b64char ns) = ns"
  by (induction ns) (simp_all add: unbase64_b64char)

lemma takeWhile_b64: "takeWhile (\<lambda>c. lowByte c \<noteq> 61) (map b64char ns) = map b64char ns"
  by (induction ns) (simp_all add: b64char_not_pad)

lemma base64url_roundtrip: "Buffer_from_base64url (Buffer_toString_base64url buf) = buf"
  by (simp add: Buffer_from_base64url_def Buffer_toString_base64url_def takeWhile_b64 map_filter_b64
      sextets_lt unsextets_sextets)

lemma dec1:
  assumes "unat b0 < 0x80"
  shows "utf8_codepoints (b0 # rest) = unat b0 # utf8_codepoints rest"
  using assms by simp

lemma dec2:
  assumes "unat b0 = 0xC0 + h" "2 \<le> h" "h < 32" "unat b1 = 0x80 + l" "l < 64"
  shows "utf8_codepoints (b0 # b1 # rest) = (h * 64 + l) # utf8_codepoints rest"
  using assms by (simp add: isCont_def)

lemma dec3:
  assumes "unat b0 = 0xE0 + h" "h < 16" "unat b1 = 0x80 + m" "m < 64"
    "unat b2 = 0x80 + l" "l < 64" "h = 0 \<Longrightarrow> 32 \<le> m" "h = 13 \<Longrightarrow> m < 32"
  shows "utf8_codepoints (b0 # b1 # b2 # rest) = (h * 4096 + m * 64 + l) # utf8_codepoints rest"
  using assms by (auto simp add: isCont_def isSecond_def secondLo_def secondHi_def)

lemma dec4:
  assumes "unat b0 = 0xF0 + h" "h < 5" "unat b1 = 0x80 + m" "m < 64"
    "unat b2 = 0x80 + k" "k < 64" "unat b3 = 0x80 + l" "l < 64"
    "h = 0 \<Longrightarrow> 16 \<le> m" "h = 4 \<Longrightarrow> m < 16"
  shows "utf8_codepoints (b0 # b1 # b2 # b3 # rest)
         = (h * 262144 + m * 4096 + k * 64 + l) # utf8_codepoints rest"
  using assms by (auto simp add: isCont_def isSecond_def secondLo_def secondHi_def)

lemma split64: "(n::nat) = n div 64 * 64 + n mod 64"
  by simp

lemma div4096: "(n::nat) div 4096 = n div 64 div 64"
  using div_mult2_eq [of n 64 64] by simp

lemma div262144: "(n::nat) div 262144 = n div 4096 div 64"
  using div_mult2_eq [of n 4096 64] by simp

lemma utf8_step:
  assumes "scalar cp"
  shows "utf8_codepoints (utf8_bytes cp @ rest) = cp # utf8_codepoints rest"
proof -
  consider "cp < 0x80" | "0x80 \<le> cp" "cp < 0x800" | "0x800 \<le> cp" "cp < 0x10000"
    | "0x10000 \<le> cp" "cp < 0x110000"
    using assms unfolding scalar_def by linarith
  then show ?thesis
  proof cases
    case 1
    then have u: "unat (of_nat cp :: 8 word) = cp"
      by (intro unat8) simp
    have "utf8_bytes cp = [of_nat cp]"
      using 1 by (simp add: utf8_bytes_def)
    then show ?thesis
      using dec1 [of "of_nat cp" rest] 1 u by simp
  next
    case 2
    define h l where "h = cp div 64" and "l = cp mod 64"
    have hl: "2 \<le> h" "h < 32" "l < 64" "h * 64 + l = cp"
    proof -
      have "128 div 64 \<le> cp div 64"
        using 2(1) by (rule div_le_mono)
      then show "2 \<le> h" by (simp add: h_def)
      show "h < 32" using 2(2) by (simp add: h_def less_mult_imp_div_less)
      show "l < 64" by (simp add: l_def)
      show "h * 64 + l = cp" by (simp add: h_def l_def)
    qed
    have b0: "unat (of_nat (0xC0 + h) :: 8 word) = 0xC0 + h"
      using hl by (intro unat8) simp
    have b1: "unat (of_nat (0x80 + l) :: 8 word) = 0x80 + l"
      using hl by (intro unat8) simp
    have "utf8_bytes cp = [of_nat (0xC0 + h), of_nat (0x80 + l)]"
      using 2 by (simp add: utf8_bytes_def h_def l_def)
    then show ?thesis
      using dec2 [OF b0 hl(1,2) b1 hl(3), of rest] hl(4) by simp
  next
    case 3
    define h m l where "h = cp div 4096" and "m = cp div 64 mod 64" and "l = cp mod 64"
    have ns: "\<not> (0xD800 \<le> cp \<and> cp \<le> 0xDFFF)"
      using assms by (simp add: scalar_def)
    have hl: "h < 16" "m < 64" "l < 64"
      using 3 by (simp_all add: h_def m_def l_def less_mult_imp_div_less)
    have "cp div 64 = h * 64 + m"
      using div4096 [of cp] by (simp add: h_def m_def)
    then have cp: "h * 4096 + m * 64 + l = cp"
      using split64 [of cp] by (simp add: l_def)
    have lo: "32 \<le> m" if "h = 0"
      using that 3 cp hl by linarith
    have hi: "m < 32" if "h = 13"
      using that ns cp hl by linarith
    have b0: "unat (of_nat (0xE0 + h) :: 8 word) = 0xE0 + h"
      using hl by (intro unat8) simp
    have b1: "unat (of_nat (0x80 + m) :: 8 word) = 0x80 + m"
      using hl by (intro unat8) simp
    have b2: "unat (of_nat (0x80 + l) :: 8 word) = 0x80 + l"
      using hl by (intro unat8) simp
    have "utf8_bytes cp = [of_nat (0xE0 + h), of_nat (0x80 + m), of_nat (0x80 + l)]"
      using 3 by (simp add: utf8_bytes_def h_def m_def l_def)
    then show ?thesis
      using dec3 [OF b0 hl(1) b1 hl(2) b2 hl(3) lo hi, of rest] cp by simp
  next
    case 4
    define h m k l where "h = cp div 262144" and "m = cp div 4096 mod 64"
      and "k = cp div 64 mod 64" and "l = cp mod 64"
    have hl: "h < 5" "m < 64" "k < 64" "l < 64"
      using 4 by (simp_all add: h_def m_def k_def l_def less_mult_imp_div_less)
    have "cp div 4096 = h * 64 + m"
      using div262144 [of cp] by (simp add: h_def m_def)
    then have "cp div 64 = (h * 64 + m) * 64 + k"
      using div4096 [of cp] split64 [of "cp div 64"] by (simp add: k_def)
    then have cp: "h * 262144 + m * 4096 + k * 64 + l = cp"
      using split64 [of cp] by (simp add: l_def)
    have lo: "16 \<le> m" if "h = 0"
      using that 4 cp hl by linarith
    have hi: "m < 16" if "h = 4"
      using that 4 cp hl by linarith
    have b0: "unat (of_nat (0xF0 + h) :: 8 word) = 0xF0 + h"
      using hl by (intro unat8) simp
    have b1: "unat (of_nat (0x80 + m) :: 8 word) = 0x80 + m"
      using hl by (intro unat8) simp
    have b2: "unat (of_nat (0x80 + k) :: 8 word) = 0x80 + k"
      using hl by (intro unat8) simp
    have b3: "unat (of_nat (0x80 + l) :: 8 word) = 0x80 + l"
      using hl by (intro unat8) simp
    have "utf8_bytes cp = [of_nat (0xF0 + h), of_nat (0x80 + m), of_nat (0x80 + k), of_nat (0x80 + l)]"
      using 4 by (simp add: utf8_bytes_def h_def m_def k_def l_def)
    then show ?thesis
      using dec4 [OF b0 hl(1) b1 hl(2) b2 hl(3) b3 hl(4) lo hi, of rest] cp by simp
  qed
qed

lemma utf8_roundtrip:
  "\<forall>cp \<in> set cps. scalar cp \<Longrightarrow> utf8_codepoints (concat (map utf8_bytes cps)) = cps"
  by (induction cps) (simp_all add: utf8_step)

lemma unit_eqI: "n = unat (c :: 16 word) \<Longrightarrow> of_nat n = c"
  by simp

lemma single_unit:
  assumes "\<not> isLead c" "\<not> isTrail c"
  shows "scalar (unitCodepoint c)" "codepointUnits (unitCodepoint c) = [c]"
proof -
  have u: "unitCodepoint c = unat c"
    using assms by (simp add: unitCodepoint_def)
  show "scalar (unitCodepoint c)"
    using assms u16_lt [of c] unfolding u scalar_def isLead_def isTrail_def by linarith
  show "codepointUnits (unitCodepoint c) = [c]"
    using u16_lt [of c] unfolding u codepointUnits_def by simp
qed

lemma pair_units:
  assumes "isLead c" "isTrail d"
  defines "cp \<equiv> 0x10000 + (unat c - 0xD800) * 0x400 + (unat d - 0xDC00)"
  shows "scalar cp" "codepointUnits cp = [c, d]"
proof -
  define h l where "h = unat c - 0xD800" and "l = unat d - 0xDC00"
  have hl: "h < 0x400" "l < 0x400" "0xD800 + h = unat c" "0xDC00 + l = unat d"
    using assms(1,2) unfolding h_def l_def isLead_def isTrail_def by linarith+
  have cp: "cp = 0x10000 + (h * 0x400 + l)"
    by (simp add: cp_def h_def l_def)
  show "scalar cp"
    using hl(1,2) unfolding cp scalar_def by linarith
  have "(h * 0x400 + l) div 0x400 = h" "(h * 0x400 + l) mod 0x400 = l"
    using hl(2) by simp_all
  then have "codepointUnits cp = [of_nat (0xD800 + h), of_nat (0xDC00 + l)]"
    unfolding cp codepointUnits_def by simp
  also have "\<dots> = [c, d]"
    using unit_eqI [OF hl(3)] unit_eqI [OF hl(4)] by (simp only:)
  finally show "codepointUnits cp = [c, d]" .
qed

lemma utf16_roundtrip:
  "wellFormed s \<Longrightarrow>
     (\<forall>cp \<in> set (utf16_codepoints s). scalar cp) \<and>
     concat (map codepointUnits (utf16_codepoints s)) = s"
proof (induction s rule: utf16_codepoints.induct)
  case 1
  then show ?case by simp
next
  case (2 c)
  then show ?case by (simp add: single_unit)
next
  case (3 c d rest)
  show ?case
  proof (cases "isLead c")
    case True
    with 3 show ?thesis by (simp add: pair_units)
  next
    case False
    with 3 show ?thesis by (simp add: single_unit)
  qed
qed

lemmas enc_defs = encodeRepositorySlug_def Buffer_toString_base64url_def Buffer_from_utf8_def
  utf8_bytes_def unitCodepoint_def isLead_def isTrail_def b64char_def

lemmas dec_defs = decodeRepositorySlug_def Buffer_toString_utf8_def Buffer_from_base64url_def
  unbase64_def lowByte_def List.map_filter_def codepointUnits_def isCont_def isSecond_def secondLo_def
  secondHi_def

lemmas str_defs = js_def split_def splitAcc.simps startsWith_def endsWith_def replaceAll_def
  backslash_def slash_def underscore_def dot_def stripPrefix_def stripSuffix_def

text \<open>
  C2 (amended). For every well-formed string \<open>u\<close> (no unpaired surrogate code unit),
  \<open>decodeRepositorySlug (encodeRepositorySlug u) = u\<close>: on such strings the slug is a
  reversible encoding of the repository URL.
\<close>

theorem slug_roundtrip:
  "wellFormed u \<Longrightarrow> decodeRepositorySlug (encodeRepositorySlug u) = u"
  by (simp add: decodeRepositorySlug_def encodeRepositorySlug_def Buffer_toString_utf8_def
      Buffer_from_utf8_def base64url_roundtrip utf8_roundtrip utf16_roundtrip)

theorem slug_roundtrip_witness:
  "wellFormed (js ''https://github.com/org/repo'') \<and>
   decodeRepositorySlug (encodeRepositorySlug (js ''https://github.com/org/repo''))
     = js ''https://github.com/org/repo''"
proof -
  have wf: "wellFormed (js ''https://github.com/org/repo'')"
    by (simp add: js_def isLead_def isTrail_def)
  show ?thesis
    using wf slug_roundtrip [OF wf] by simp
qed

text \<open>
  C2 as stated fails on the string that is one unpaired surrogate code unit, U+D800:
  UTF-8 has no encoding for it, \<open>Buffer.from\<close> writes U+FFFD (bytes \<open>EF BF BD\<close>,
  slug \<open>77-9\<close>), and decoding gives the one-unit string U+FFFD.
\<close>

theorem slug_roundtrip_counterexample:
  "decodeRepositorySlug (encodeRepositorySlug [0xD800]) \<noteq> [0xD800]"
  by (simp add: enc_defs dec_defs)

text \<open>
  C1. The reverse lookup of the broken-link repair, applied to the mirror path
  \<open>/s/repos/<slug(u)>/x.md\<close> of \<open>u = https://github.com/org/repo\<close>, does not return
  \<open>u\<close>: it returns \<open>https://\<close> followed by the base64url slug itself.
\<close>

theorem extractRepositoryUrlFromTargetPath_slug:
  "extractRepositoryUrlFromTargetPath
     (mirrorPath (js ''/s'') (js ''https://github.com/org/repo'') (js ''x.md''))
   = Some (js ''https://aHR0cHM6Ly9naXRodWIuY29tL29yZy9yZXBv'') \<and>
   extractRepositoryUrlFromTargetPath
     (mirrorPath (js ''/s'') (js ''https://github.com/org/repo'') (js ''x.md''))
   \<noteq> Some (js ''https://github.com/org/repo'')"
  by (simp add: extractRepositoryUrlFromTargetPath_def mirrorPath_def enc_defs str_defs Let_def)

text \<open>
  The tree provider's lookup, which decodes with \<open>decodeRepositorySlug\<close>, returns \<open>u\<close>
  on the same path.
\<close>

lemma extractRepositoryUrlFromPath_slug:
  "extractRepositoryUrlFromPath
     (mirrorPath (js ''/s'') (js ''https://github.com/org/repo'') (js ''x.md''))
   = Some (js ''https://github.com/org/repo'')"
  by (simp add: extractRepositoryUrlFromPath_def mirrorPath_def enc_defs dec_defs str_defs Let_def)

text \<open>What \<open>buf.toString('utf8')\<close> returns: scalar values only, hence well-formed UTF-16.\<close>

lemma scalar_FFFD: "scalar 0xFFFD"
  by (simp add: scalar_def)

lemma scalar1: "u < 0x80 \<Longrightarrow> scalar u"
  by (simp add: scalar_def)

lemma scalar2: "u \<le> 0xDF \<Longrightarrow> v \<le> 0xBF \<Longrightarrow> scalar ((u - 0xC0) * 64 + (v - 0x80))"
proof -
  assume "u \<le> 0xDF" "v \<le> 0xBF"
  then have "u - 0xC0 \<le> 31" "v - 0x80 \<le> 63" by simp_all
  then have "(u - 0xC0) * 64 \<le> 31 * 64" by simp
  with \<open>v - 0x80 \<le> 63\<close> have "(u - 0xC0) * 64 + (v - 0x80) < 0x800" by simp
  then show ?thesis by (simp add: scalar_def)
qed

lemma scalar3:
  assumes "0xE0 \<le> u" "u \<le> 0xEF" "secondLo u \<le> v" "v \<le> secondHi u" "w \<le> 0xBF"
  shows "scalar ((u - 0xE0) * 4096 + (v - 0x80) * 64 + (w - 0x80))"
proof -
  define h m l where "h = u - 0xE0" and "m = v - 0x80" and "l = w - 0x80"
  have v: "v \<le> 0xBF"
    using assms(4) by (simp add: secondHi_def split: if_splits)
  have b: "h \<le> 15" "m \<le> 63" "l \<le> 63"
    using assms(2,5) v by (simp_all add: h_def m_def l_def)
  have hi: "m \<le> 31" if "h = 13"
    using that assms(1,4) by (simp add: h_def m_def secondHi_def split: if_splits)
  consider "h \<le> 12" | "h = 13" | "14 \<le> h"
    by linarith
  then have "h * 4096 + m * 64 + l < 0xD800 \<or> 0xDFFF < h * 4096 + m * 64 + l"
  proof cases
    case 1
    then have "h * 4096 \<le> 12 * 4096" by simp
    then show ?thesis using b by simp
  next
    case 2
    then show ?thesis using hi b by simp
  next
    case 3
    then have "14 * 4096 \<le> h * 4096" by simp
    then show ?thesis by simp
  qed
  moreover have "h * 4096 + m * 64 + l < 0x110000"
  proof -
    have "h * 4096 \<le> 15 * 4096" "m * 64 \<le> 63 * 64"
      using b by simp_all
    then show ?thesis using b by simp
  qed
  ultimately show ?thesis
    by (auto simp add: scalar_def h_def m_def l_def)
qed

lemma scalar4:
  assumes "0xF0 \<le> u" "u \<le> 0xF4" "secondLo u \<le> v" "v \<le> secondHi u" "w \<le> 0xBF" "x \<le> 0xBF"
  shows "scalar ((u - 0xF0) * 262144 + (v - 0x80) * 4096 + (w - 0x80) * 64 + (x - 0x80))"
proof -
  define h m k l where "h = u - 0xF0" and "m = v - 0x80" and "k = w - 0x80" and "l = x - 0x80"
  have v: "v \<le> 0xBF" "0x90 \<le> v \<or> 0xF0 < u"
    using assms(1,3,4) by (auto simp add: secondHi_def secondLo_def split: if_splits)
  have b: "h \<le> 4" "m \<le> 63" "k \<le> 63" "l \<le> 63"
    using assms(2,5,6) v by (simp_all add: h_def m_def k_def l_def)
  have hi: "m \<le> 15" if "h = 4"
    using that assms(1,4) by (simp add: h_def m_def secondHi_def split: if_splits)
  have lo: "16 \<le> m" if "h = 0"
    using that assms(1,3) v by (auto simp add: h_def m_def)
  have "0xDFFF < h * 262144 + m * 4096 + k * 64 + l"
  proof (cases "h = 0")
    case True
    then have "16 * 4096 \<le> m * 4096" using lo by simp
    then show ?thesis by simp
  next
    case False
    then have "1 * 262144 \<le> h * 262144" by simp
    then show ?thesis by simp
  qed
  moreover have "h * 262144 + m * 4096 + k * 64 + l < 0x110000"
  proof (cases "h = 4")
    case True
    have "m * 4096 \<le> 15 * 4096" "k * 64 \<le> 63 * 64"
      using hi [OF True] b by simp_all
    then show ?thesis using True b by simp
  next
    case False
    then have "h \<le> 3" using b by simp
    then have "h * 262144 \<le> 3 * 262144" by simp
    moreover have "m * 4096 \<le> 63 * 4096" "k * 64 \<le> 63 * 64"
      using b by simp_all
    ultimately show ?thesis using b by simp
  qed
  ultimately show ?thesis
    by (simp add: scalar_def h_def m_def k_def l_def)
qed

lemma utf8_head:
  "utf8_codepoints (b0 # rest) = [0xFFFD] \<or>
   (\<exists>cp0 rest'. utf8_codepoints (b0 # rest) = cp0 # utf8_codepoints rest' \<and> scalar cp0 \<and>
      length rest' \<le> length rest)"
proof -
  define u where "u = unat b0"
  consider (one) "u < 0x80" | (two) "0xC2 \<le> u" "u \<le> 0xDF" | (three) "0xE0 \<le> u" "u \<le> 0xEF"
    | (four) "0xF0 \<le> u" "u \<le> 0xF4"
    | (bad) "0x80 \<le> u" "u < 0xC2 \<or> 0xF4 < u"
    by linarith
  then show ?thesis
  proof cases
    case one
    then have "utf8_codepoints (b0 # rest) = u # utf8_codepoints rest"
      by (simp add: u_def)
    then show ?thesis
      using scalar1 [OF one] by auto
  next
    case bad
    then have "utf8_codepoints (b0 # rest) = 0xFFFD # utf8_codepoints rest"
      by (auto simp add: u_def)
    then show ?thesis
      using scalar_FFFD by auto
  next
    case two
    show ?thesis
    proof (cases rest)
      case Nil
      then show ?thesis using two by (simp add: u_def)
    next
      case (Cons b1 r1)
      show ?thesis
      proof (cases "isCont b1")
        case True
        then have "utf8_codepoints (b0 # rest)
            = ((u - 0xC0) * 64 + (unat b1 - 0x80)) # utf8_codepoints r1"
          using two Cons by (simp add: u_def)
        moreover have "scalar ((u - 0xC0) * 64 + (unat b1 - 0x80))"
          using two True by (intro scalar2) (simp_all add: isCont_def)
        ultimately show ?thesis
          using Cons by auto
      next
        case False
        then have "utf8_codepoints (b0 # rest) = 0xFFFD # utf8_codepoints rest"
          using two Cons by (simp add: u_def)
        then show ?thesis
          using scalar_FFFD by auto
      qed
    qed
  next
    case three
    then have range: "\<not> u < 0x80" "\<not> (0xC2 \<le> u \<and> u \<le> 0xDF)"
      by simp_all
    show ?thesis
    proof (cases rest)
      case Nil
      then show ?thesis using three range by (simp add: u_def)
    next
      case (Cons b1 r1)
      show ?thesis
      proof (cases "isSecond u b1")
        case False
        then have "utf8_codepoints (b0 # rest) = 0xFFFD # utf8_codepoints rest"
          using three range Cons by (simp add: u_def)
        then show ?thesis
          using scalar_FFFD by auto
      next
        case second: True
        show ?thesis
        proof (cases r1)
          case Nil
          then show ?thesis using three range Cons second by (simp add: u_def)
        next
          case inner: (Cons b2 r2)
          show ?thesis
          proof (cases "isCont b2")
            case False
            then have "utf8_codepoints (b0 # rest) = 0xFFFD # utf8_codepoints r1"
              using three range Cons second inner by (simp add: u_def)
            then show ?thesis
              using scalar_FFFD Cons by auto
          next
            case True
            then have "utf8_codepoints (b0 # rest)
                = ((u - 0xE0) * 4096 + (unat b1 - 0x80) * 64 + (unat b2 - 0x80))
                  # utf8_codepoints r2"
              using three range Cons second inner by (simp add: u_def)
            moreover have "scalar ((u - 0xE0) * 4096 + (unat b1 - 0x80) * 64 + (unat b2 - 0x80))"
              using three second True by (intro scalar3) (simp_all add: isCont_def isSecond_def)
            ultimately show ?thesis
              using Cons inner by auto
          qed
        qed
      qed
    qed
  next
    case four
    then have range: "\<not> u < 0x80" "\<not> (0xC2 \<le> u \<and> u \<le> 0xDF)" "\<not> (0xE0 \<le> u \<and> u \<le> 0xEF)"
      by simp_all
    show ?thesis
    proof (cases rest)
      case Nil
      then show ?thesis using four range by (simp add: u_def)
    next
      case (Cons b1 r1)
      show ?thesis
      proof (cases "isSecond u b1")
        case False
        then have "utf8_codepoints (b0 # rest) = 0xFFFD # utf8_codepoints rest"
          using four range Cons by (simp add: u_def)
        then show ?thesis
          using scalar_FFFD by auto
      next
        case second: True
        show ?thesis
        proof (cases r1)
          case Nil
          then show ?thesis using four range Cons second by (simp add: u_def)
        next
          case inner: (Cons b2 r2)
          show ?thesis
          proof (cases "isCont b2")
            case False
            then have "utf8_codepoints (b0 # rest) = 0xFFFD # utf8_codepoints r1"
              using four range Cons second inner by (simp add: u_def)
            then show ?thesis
              using scalar_FFFD Cons by auto
          next
            case third: True
            show ?thesis
            proof (cases r2)
              case Nil
              then show ?thesis
                using four range Cons second inner third by (simp add: u_def)
            next
              case last: (Cons b3 r3)
              show ?thesis
              proof (cases "isCont b3")
                case False
                then have "utf8_codepoints (b0 # rest) = 0xFFFD # utf8_codepoints r2"
                  using four range Cons second inner third last by (simp add: u_def)
                then show ?thesis
                  using scalar_FFFD Cons inner by auto
              next
                case True
                then have "utf8_codepoints (b0 # rest)
                    = ((u - 0xF0) * 262144 + (unat b1 - 0x80) * 4096 + (unat b2 - 0x80) * 64
                       + (unat b3 - 0x80)) # utf8_codepoints r3"
                  using four range Cons second inner third last by (simp add: u_def)
                moreover have "scalar ((u - 0xF0) * 262144 + (unat b1 - 0x80) * 4096
                    + (unat b2 - 0x80) * 64 + (unat b3 - 0x80))"
                  using four second third True
                  by (intro scalar4) (simp_all add: isCont_def isSecond_def)
                ultimately show ?thesis
                  using Cons inner last by auto
              qed
            qed
          qed
        qed
      qed
    qed
  qed
qed

lemma utf8_codepoints_scalar: "cp \<in> set (utf8_codepoints buf) \<Longrightarrow> scalar cp"
proof (induction "length buf" arbitrary: buf rule: less_induct)
  case less
  show ?case
  proof (cases buf)
    case Nil
    then show ?thesis using less.prems by simp
  next
    case (Cons b0 rest)
    from utf8_head [of b0 rest] show ?thesis
    proof
      assume "utf8_codepoints (b0 # rest) = [0xFFFD]"
      then show ?thesis
        using less.prems Cons scalar_FFFD by simp
    next
      assume "\<exists>cp0 rest'. utf8_codepoints (b0 # rest) = cp0 # utf8_codepoints rest' \<and> scalar cp0 \<and>
        length rest' \<le> length rest"
      then obtain cp0 rest' where step: "utf8_codepoints (b0 # rest) = cp0 # utf8_codepoints rest'"
        "scalar cp0" "length rest' \<le> length rest"
        by blast
      have "cp = cp0 \<or> cp \<in> set (utf8_codepoints rest')"
        using less.prems Cons step(1) by simp
      then show ?thesis
        using step(2) less.hyps [of rest'] step(3) Cons by auto
    qed
  qed
qed

lemma wellFormed_plain_unit:
  "\<not> isLead c \<Longrightarrow> \<not> isTrail c \<Longrightarrow> wellFormed (c # s) = wellFormed s"
  by (cases s) simp_all

lemma wellFormed_append_units:
  assumes "scalar cp" "wellFormed s"
  shows "wellFormed (codepointUnits cp @ s)"
proof (cases "cp < 0x10000")
  case True
  then have u: "unat (of_nat cp :: 16 word) = cp"
    by (intro unat16) simp
  have "\<not> isLead (of_nat cp)" "\<not> isTrail (of_nat cp)"
    using assms(1) unfolding isLead_def isTrail_def u scalar_def by linarith+
  then show ?thesis
    using True assms(2) by (simp add: codepointUnits_def wellFormed_plain_unit)
next
  case False
  define h l where "h = (cp - 0x10000) div 0x400" and "l = (cp - 0x10000) mod 0x400"
  have "cp - 0x10000 < 0x400 * 0x400"
    using assms(1) False by (simp add: scalar_def)
  then have hl: "h < 0x400" "l < 0x400"
    unfolding h_def l_def by (simp_all add: less_mult_imp_div_less)
  have uh: "unat (of_nat (0xD800 + h) :: 16 word) = 0xD800 + h"
    using hl by (intro unat16) simp
  have ul: "unat (of_nat (0xDC00 + l) :: 16 word) = 0xDC00 + l"
    using hl by (intro unat16) simp
  have "isLead (of_nat (0xD800 + h))" "isTrail (of_nat (0xDC00 + l))"
    using hl unfolding isLead_def isTrail_def uh ul by simp_all
  moreover have "codepointUnits cp = [of_nat (0xD800 + h), of_nat (0xDC00 + l)]"
    using False by (simp add: codepointUnits_def h_def l_def)
  ultimately show ?thesis
    using assms(2) by (simp del: of_nat_add)
qed

lemma wellFormed_units:
  "\<forall>cp\<in>set cps. scalar cp \<Longrightarrow> wellFormed (concat (map codepointUnits cps))"
  by (induction cps) (simp_all add: wellFormed_append_units)

lemma decodeRepositorySlug_wellFormed: "wellFormed (decodeRepositorySlug slug)"
  by (simp add: decodeRepositorySlug_def Buffer_toString_utf8_def wellFormed_units
      utf8_codepoints_scalar)

text \<open>
  Conversely the decoder only returns well-formed strings, so the round trip holds of no
  other string: the slug is reversible exactly on the well-formed ones.
\<close>

lemma roundtrip_only_wellFormed:
  "decodeRepositorySlug (encodeRepositorySlug u) = u \<Longrightarrow> wellFormed u"
  using decodeRepositorySlug_wellFormed [of "encodeRepositorySlug u"] by simp

section \<open>Proofs: the reverse lookup on every mirror path\<close>

text \<open>
  \<open>split\<close> on the one-unit separator \<open>/\<close> distributes over a separator, and a string
  without a separator is one part.
\<close>

lemma splitAcc_char_append:
  "splitAcc [c] acc (a @ c # b) = splitAcc [c] acc a @ splitAcc [c] [] b"
proof (induction a arbitrary: acc)
  case Nil
  show ?case
    by (simp add: splitAcc.simps [of "[c]" acc "c # b"] splitAcc.simps [of "[c]" acc "[]"]
        startsWith_def)
next
  case (Cons x a)
  show ?case
  proof (cases "x = c")
    case True
    then show ?thesis
      using Cons [of "[]"]
      by (simp add: splitAcc.simps [of "[c]" acc "c # a @ c # b"]
          splitAcc.simps [of "[c]" acc "c # a"] startsWith_def)
  next
    case False
    then show ?thesis
      using Cons [of "x # acc"]
      by (simp add: splitAcc.simps [of "[c]" acc "x # a @ c # b"]
          splitAcc.simps [of "[c]" acc "x # a"] startsWith_def)
  qed
qed

lemma splitAcc_char_none: "c \<notin> set s \<Longrightarrow> splitAcc [c] acc s = [rev acc @ s]"
proof (induction s arbitrary: acc)
  case Nil
  then show ?case by (simp add: splitAcc.simps [of "[c]" acc "[]"])
next
  case (Cons x s)
  then have "x \<noteq> c" and "c \<notin> set s" by auto
  then show ?case
    using Cons.IH [of "x # acc"]
    by (simp add: splitAcc.simps [of "[c]" acc "x # s"] startsWith_def)
qed

lemma js_slash: "js ''/'' = [slash]"
  by (simp add: js_def slash_def)

lemma split_slash_append: "split (a @ slash # b) (js ''/'') = split a (js ''/'') @ split b (js ''/'')"
  by (simp add: split_def js_slash splitAcc_char_append)

lemma split_slash_none: "slash \<notin> set s \<Longrightarrow> split s (js ''/'') = [s]"
  by (simp add: split_def js_slash splitAcc_char_none)

lemma findIndex_append:
  "\<not> list_ex P xs \<Longrightarrow> P y \<Longrightarrow> findIndex P (xs @ y # ys) = int (length xs)"
  by (induction xs) (simp_all add: Let_def)

lemma findIndex_nonneg_iff: "0 \<le> findIndex P xs \<longleftrightarrow> list_ex P xs"
  by (induction xs) (auto simp add: Let_def)

text \<open>A slug has neither \<open>/\<close> nor \<open>\\<close>, so it is one part of its mirror path.\<close>

lemma b64char_not_separator: "b64char n \<noteq> slash \<and> b64char n \<noteq> backslash"
proof -
  have "unat (b64char n) \<noteq> 47 \<and> unat (b64char n) \<noteq> 92"
    unfolding unat_b64char by auto
  then show ?thesis
    by (auto simp add: slash_def backslash_def)
qed

lemma slug_no_separator:
  "slash \<notin> set (encodeRepositorySlug u)" "backslash \<notin> set (encodeRepositorySlug u)"
  using b64char_not_separator
  by (auto simp add: encodeRepositorySlug_def Buffer_toString_base64url_def dest: sym)

lemma replaceAll_append: "replaceAll a b (s @ t) = replaceAll a b s @ replaceAll a b t"
  by (simp add: replaceAll_def)

lemma replaceAll_none: "a \<notin> set s \<Longrightarrow> replaceAll a b s = s"
  by (induction s) (auto simp add: replaceAll_def)

lemma js_repos_dir: "js ''/repos/'' = slash # js ''repos'' @ [slash]"
  by (simp add: js_def slash_def)

lemma repos_no_separator: "slash \<notin> set (js ''repos'')" "backslash \<notin> set (js ''repos'')"
  by (simp_all add: js_def slash_def backslash_def)

lemma split_mirrorPath:
  "split (replaceAll backslash slash (mirrorPath storage u f)) (js ''/'') =
     split (replaceAll backslash slash storage) (js ''/'') @
     js ''repos'' # encodeRepositorySlug u # split (replaceAll backslash slash f) (js ''/'')"
proof -
  let ?n = "replaceAll backslash slash"
  have "?n (mirrorPath storage u f) =
          ?n storage @ slash # (js ''repos'' @ slash # (encodeRepositorySlug u @ slash # ?n f))"
    using replaceAll_none [OF slug_no_separator(2), of slash u]
      replaceAll_none [OF repos_no_separator(2), of slash]
    by (simp add: mirrorPath_def replaceAll_append js_repos_dir js_slash)
       (simp add: replaceAll_def slash_def backslash_def)
  then show ?thesis
    by (simp only: split_slash_append split_slash_none [OF slug_no_separator(1)]
        split_slash_none [OF repos_no_separator(1)]) simp
qed

text \<open>A slug has at least as many code units as the URL it encodes.\<close>

lemma length_sextets: "length buf \<le> length (sextets buf)"
  by (induction buf rule: sextets.induct) simp_all

lemma length_utf8_bytes: "0 < length (utf8_bytes cp)"
  by (simp add: utf8_bytes_def)

lemma length_utf8_bytes_pair: "2 \<le> length (utf8_bytes (0x10000 + n))"
  by (simp add: utf8_bytes_def)

lemma length_Buffer_from_utf8: "length u \<le> length (Buffer_from_utf8 u)"
proof (induction u rule: utf16_codepoints.induct)
  case 1
  show ?case by (simp add: Buffer_from_utf8_def)
next
  case (2 c)
  show ?case
    using length_utf8_bytes [of "unitCodepoint c"] by (simp add: Buffer_from_utf8_def Suc_le_eq)
next
  case (3 c d rest)
  show ?case
  proof (cases "isLead c \<and> isTrail d")
    case True
    then have "utf16_codepoints (c # d # rest) =
        (0x10000 + ((unat c - 0xD800) * 0x400 + (unat d - 0xDC00))) # utf16_codepoints rest"
      by simp
    then show ?thesis
      using 3(1) [OF True]
        length_utf8_bytes_pair [of "(unat c - 0xD800) * 0x400 + (unat d - 0xDC00)"]
      by (simp add: Buffer_from_utf8_def)
  next
    case False
    then have "utf16_codepoints (c # d # rest) = unitCodepoint c # utf16_codepoints (d # rest)"
      by auto
    then have "length (Buffer_from_utf8 (c # d # rest)) =
        length (utf8_bytes (unitCodepoint c)) + length (Buffer_from_utf8 (d # rest))"
      unfolding Buffer_from_utf8_def by simp
    moreover have "Suc 0 \<le> length (utf8_bytes (unitCodepoint c))"
      using length_utf8_bytes [of "unitCodepoint c"] by linarith
    moreover have "length (c # d # rest) = Suc (length (d # rest))"
      by simp
    ultimately show ?thesis
      using 3(2) [OF False] by linarith
  qed
qed

lemma length_encodeRepositorySlug: "length u \<le> length (encodeRepositorySlug u)"
  using length_Buffer_from_utf8 [of u] length_sextets [of "Buffer_from_utf8 u"]
  by (simp add: encodeRepositorySlug_def Buffer_toString_base64url_def)

text \<open>
  For every storage directory that has no path segment \<open>repos\<close> of its own, every URL
  \<open>u\<close> and every file name, \<open>extractRepositoryUrlFromTargetPath\<close> finds the slug of
  \<open>u\<close> in the mirror path and returns \<open>https://\<close> followed by the slug with its
  underscores replaced by slashes. That string is at least eight code units longer than
  \<open>u\<close>, so the lookup returns \<open>u\<close> for no URL at all.
\<close>

lemma extractRepositoryUrlFromTargetPath_mirrorPath:
  assumes "js ''repos'' \<notin> set (split (replaceAll backslash slash storage) (js ''/''))"
  shows "extractRepositoryUrlFromTargetPath (mirrorPath storage u f) =
           Some (js ''https://'' @ replaceAll underscore slash (encodeRepositorySlug u))"
proof -
  let ?pre = "split (replaceAll backslash slash storage) (js ''/'')"
  let ?post = "encodeRepositorySlug u # split (replaceAll backslash slash f) (js ''/'')"
  let ?P = "\<lambda>part. part = js ''repos''"
  have no: "\<not> list_ex ?P ?pre"
    using assms by (simp add: list_ex_iff)
  have idx: "findIndex ?P (?pre @ js ''repos'' # ?post) = int (length ?pre)"
    using no by (rule findIndex_append) simp
  have nth: "(?pre @ js ''repos'' # ?post) ! nat (int (length ?pre) + 1) = encodeRepositorySlug u"
    by (simp add: nth_append nat_add_distrib)
  show ?thesis
    unfolding extractRepositoryUrlFromTargetPath_def split_mirrorPath Let_def idx nth
    by simp
qed

lemma extractRepositoryUrlFromTargetPath_never_url:
  assumes "js ''repos'' \<notin> set (split (replaceAll backslash slash storage) (js ''/''))"
  shows "extractRepositoryUrlFromTargetPath (mirrorPath storage u f) \<noteq> Some u"
proof -
  have "length (js ''https://'' @ replaceAll underscore slash (encodeRepositorySlug u)) =
          8 + length (encodeRepositorySlug u)"
    by (simp add: js_def replaceAll_def)
  then have "length (js ''https://'' @ replaceAll underscore slash (encodeRepositorySlug u)) \<noteq>
      length u"
    using length_encodeRepositorySlug [of u] by linarith
  then have "js ''https://'' @ replaceAll underscore slash (encodeRepositorySlug u) \<noteq> u"
    by (rule contrapos_nn) (rule arg_cong [where f = length])
  then show ?thesis
    unfolding extractRepositoryUrlFromTargetPath_mirrorPath [OF assms] by simp
qed

section \<open>Proofs: the file system\<close>

lemma realpath_plain: "\<not> isLink (fs p) \<Longrightarrow> realpath n fs p = Some p"
  by (cases "fs p" rule: isLink.cases) (simp_all add: realpath.simps)

lemma stat_plain: "\<not> isLink (fs p) \<Longrightarrow> stat fs p = fs p"
  by (simp add: stat_def realpath_plain)

lemma fileExists_plain: "\<not> isLink (fs p) \<Longrightarrow> fileExists e fs p = (fs p \<noteq> None)"
  by (simp add: fileExists_def stat_plain lstat_def)

lemma exists_file: "fs p = Some (File content) \<Longrightarrow> fileExists e fs p"
  by (simp add: fileExists_plain)

lemma exists_none: "fs p = None \<Longrightarrow> \<not> fileExists e fs p"
  by (simp add: fileExists_plain)

lemma exists_link_file:
  "fs p = Some (Symlink t) \<Longrightarrow> fs t = Some (File content) \<Longrightarrow> fileExists e fs p"
  by (simp add: fileExists_def stat_def lstat_def maxLinks_def realpath.simps)

lemma shouldUpdateFile_plain:
  "\<not> isLink (fs p) \<Longrightarrow> shouldUpdateFile e fs p content = (fs p \<noteq> Some (File content))"
  by (cases "fs p" rule: isLink.cases)
     (auto simp add: shouldUpdateFile_def fileExists_plain readFileContent_def stat_plain)

lemma writeFileContent_plain:
  "\<not> isLink (fs p) \<Longrightarrow>
   writeFileContent e fs p content
     = (case writeFailure e p of Some err \<Rightarrow> Inl err | None \<Rightarrow> Inr (fs(p \<mapsto> File content)))"
  by (simp add: writeFileContent_def realpath_plain split: option.splits)

section \<open>Proofs: activation and deactivation\<close>

lemmas fs_defs = fileExists_def stat_def lstat_def maxLinks_def realpath.simps joinPath_def
  getRepositoryPath_def
  mirrorFile_def activeFile_def

lemmas ex_defs = exEnv_def exWinEnv_def exR1_def exR2_def exR3_def exMain_def

lemma exSlugs:
  "encodeRepositorySlug exR1 = js ''aHR0cHM6Ly9naXRodWIuY29tL28vcg''"
  "encodeRepositorySlug exR2 = js ''aHR0cHM6Ly9naXRsYWIuY29tL28vcg''"
  "encodeRepositorySlug exR3 = js ''aHR0cHM6Ly9naXRodWIuY29tL3AvcQ''"
  by (simp_all add: ex_defs enc_defs js_def)

lemma exPaths:
  "mirrorFile exEnv exR1 f = js ''/s/repos/aHR0cHM6Ly9naXRodWIuY29tL28vcg/'' @ f"
  "mirrorFile exEnv exR2 f = js ''/s/repos/aHR0cHM6Ly9naXRsYWIuY29tL28vcg/'' @ f"
  "mirrorFile exEnv exR3 f = js ''/s/repos/aHR0cHM6Ly9naXRodWIuY29tL3AvcQ/'' @ f"
  "activeFile exEnv f = js ''/s/prompts/'' @ f"
  by (simp_all add: mirrorFile_def activeFile_def getRepositoryPath_def joinPath_def exSlugs)
     (simp_all add: exEnv_def js_def)

lemma exIds:
  "getRepositoryIdentifier exR1 = js ''o-r''"
  "getRepositoryIdentifier exR2 = js ''o-r''"
  "getRepositoryIdentifier exR3 = js ''p-q''"
  by (simp_all add: ex_defs getRepositoryIdentifier_def githubIdentifier_def azureIdentifier_def
      fallbackIdentifier_def stripProtocol_def str_defs Let_def)

text \<open>
  C7 (amended). \<open>deactivatePrompt\<close> either changes nothing or deletes exactly the entry
  at the target name, and it deletes only an entry that is a symbolic link, or a plain file
  when the platform is Windows (any plain file at that name: the code keeps no record of
  which files the copy fallback created). Elsewhere a plain file is never deleted. No other
  path is touched.
\<close>

theorem deactivatePrompt_frame:
  "snd (deactivatePrompt e fs promptPath) = fs \<or>
   (snd (deactivatePrompt e fs promptPath) = fs(joinPath (getPromptsDirectory e) promptPath := None) \<and>
    ((\<exists>t. fs (joinPath (getPromptsDirectory e) promptPath) = Some (Symlink t)) \<or>
     (win32 e \<and> (\<exists>content. fs (joinPath (getPromptsDirectory e) promptPath) = Some (File content)))))"
proof -
  define targetPath where "targetPath = joinPath (getPromptsDirectory e) promptPath"
  show ?thesis
  proof (cases "fs targetPath")
    case None
    then show ?thesis
      by (simp add: deactivatePrompt_def removePromptSymlink_def lstat_def targetPath_def
          Let_def)
  next
    case (Some stats)
    then show ?thesis
      by (cases stats)
         (auto simp add: deactivatePrompt_def removePromptSymlink_def lstat_def delete_def
            targetPath_def Let_def)
  qed
qed

text \<open>
  C7 as stated fails on Windows: the only file there is, a note of the user's own in the
  activation directory, which no copy fallback can have created since no mirror exists, is
  deleted.
\<close>

theorem deactivatePrompt_counterexample:
  "exNotesFs (activeFile exWinEnv (js ''notes.md'')) = Some (File (js ''mine'')) \<and>
   snd (deactivatePrompt exWinEnv exNotesFs (js ''notes.md'')) (activeFile exWinEnv (js ''notes.md''))
     = None"
  by (simp add: exNotesFs_def deactivatePrompt_def removePromptSymlink_def delete_def fs_defs
      exWinEnv_def exEnv_def Let_def)

text \<open>
  C10. When the repository URL is missing (\<open>undefined\<close> or empty) or the source file is
  absent from the mirror of that repository, \<open>activatePrompt\<close> throws and the file system,
  hence the activation directory, is as it was.
\<close>

theorem activatePrompt_rejects:
  assumes "repositoryUrl = None \<or> repositoryUrl = Some [] \<or>
           (\<exists>repoUrl. repositoryUrl = Some repoUrl \<and>
              \<not> fileExists e fs (joinPath (getRepositoryPath e repoUrl) promptPath))"
  shows "\<exists>err. activatePrompt e fs promptPath repositoryUrl = (Inl err, fs)"
  using assms by (auto simp add: activatePrompt_def Let_def)

lemma verifyCreated_ok:
  "verifyCreated e fs targetPath = (Inr u, fs') \<Longrightarrow> fs' = fs \<and> fileExists e fs targetPath"
  by (simp add: verifyCreated_def split: if_splits)

lemma linkOrCopy_fresh:
  assumes "linkOrCopy e fs sourcePath targetPath = (Inr u, fs')" "fs targetPath = None"
  shows "fileExists e fs' targetPath \<and>
         ((\<exists>t. fs' = fs(targetPath \<mapsto> Symlink t)) \<or>
          (win32 e \<and> (\<exists>content. fs' = fs(targetPath \<mapsto> File content))))"
proof (cases "symlink e fs sourcePath targetPath")
  case (Inr fs1)
  then have "fs1 = fs(targetPath \<mapsto> Symlink sourcePath)"
    using assms(2) by (simp add: symlink_def split: option.splits)
  moreover have "fs' = fs1 \<and> fileExists e fs1 targetPath"
    using assms(1) Inr by (simp add: linkOrCopy_def verifyCreated_ok)
  ultimately show ?thesis by auto
next
  case (Inl symlinkError)
  show ?thesis
  proof (cases "win32 e \<and> errorCode symlinkError = Some (js ''EPERM'')")
    case False
    then show ?thesis
      using assms(1) Inl by (auto simp add: linkOrCopy_def)
  next
    case True
    then obtain fs1 where copy: "copyFallback e fs sourcePath targetPath = Inr fs1"
      and v: "verifyCreated e fs1 targetPath = (Inr u, fs')"
      using assms(1) Inl by (auto simp add: linkOrCopy_def split: sum.splits)
    have "realpath maxLinks fs targetPath = Some targetPath"
      using assms(2) by (simp add: realpath_plain)
    then obtain content where "fs1 = fs(targetPath \<mapsto> File content)"
      using copy
      by (auto simp add: copyFallback_def writeFile_def writeFileContent_def
          split: sum.splits option.splits)
    then show ?thesis
      using v True verifyCreated_ok [OF v] by auto
  qed
qed

lemma remove_created:
  assumes "fileExists e fs' targetPath" "fs targetPath = None"
    "(\<exists>t. fs' = fs(targetPath \<mapsto> Symlink t)) \<or>
     (win32 e \<and> (\<exists>content. fs' = fs(targetPath \<mapsto> File content)))"
  shows "removePromptSymlink e fs' targetPath = (Inr (), fs)"
proof -
  obtain stats where stats: "fs' = fs(targetPath \<mapsto> stats)" "isSymbolicLink stats \<or> win32 e"
    using assms(3) by auto
  have "fs' targetPath = Some stats" "fs'(targetPath := None) = fs"
    using stats(1) assms(2) by auto
  then show ?thesis
    using assms(1) stats(2) by (simp add: removePromptSymlink_def lstat_def delete_def)
qed

text \<open>
  C8 (amended). When nothing existed at the target workspace name and \<open>activatePrompt\<close>
  succeeds, \<open>deactivatePrompt\<close> of the returned workspace name succeeds and gives back the
  file system as it was before the activation: the activation directory and every mirror.
\<close>

theorem activate_deactivate_roundtrip:
  assumes "activatePrompt e fs promptPath repositoryUrl = (Inr workspaceName, fs')"
    and "fs (joinPath (getPromptsDirectory e) workspaceName) = None"
  shows "deactivatePrompt e fs' workspaceName = (Inr (), fs)"
proof -
  obtain repoUrl where url: "repositoryUrl = Some repoUrl" "repoUrl \<noteq> []"
    using assms(1) by (auto simp add: activatePrompt_def split: option.splits if_splits)
  define sourcePath where "sourcePath = joinPath (getRepositoryPath e repoUrl) promptPath"
  define name where "name = getUniqueWorkspaceName e fs promptPath repoUrl"
  define targetPath where "targetPath = joinPath (getPromptsDirectory e) name"
  have src: "fileExists e fs sourcePath"
    using assms(1) url
    by (auto simp add: activatePrompt_def Let_def sourcePath_def split: if_splits)
  from assms(1) have created: "createPromptSymlink e fs sourcePath targetPath = (Inr (), fs')"
    and name: "workspaceName = name"
    using url src
    by (auto simp add: activatePrompt_def Let_def sourcePath_def name_def targetPath_def
        split: if_splits prod.splits sum.splits)
  have absent: "fs targetPath = None"
    using assms(2) name by (simp add: targetPath_def)
  have "linkOrCopy e fs sourcePath targetPath = (Inr (), fs')"
  proof (cases "fileExists e fs targetPath")
    case False
    then show ?thesis using created by (simp add: createPromptSymlink_def)
  next
    case True
    then show ?thesis
      using created absent by (simp add: createPromptSymlink_def delete_def)
  qed
  from linkOrCopy_fresh [OF this absent]
  have "removePromptSymlink e fs' targetPath = (Inr (), fs)"
    using absent by (intro remove_created) auto
  then show ?thesis
    by (simp add: deactivatePrompt_def name targetPath_def)
qed

lemma exFs_lookup:
  "exFs (mirrorFile exEnv exR1 (js ''a.md'')) = Some (File (js ''text''))"
  "exFs (mirrorFile exEnv exR2 (js ''a.md'')) = None"
  "exFs (mirrorFile exEnv exR3 (js ''a.md'')) = None"
  "exFs (mirrorFile exEnv exR1 (js ''x.prompt.md'')) = Some (File (js ''one''))"
  "exFs (mirrorFile exEnv exR2 (js ''x.prompt.md'')) = Some (File (js ''two''))"
  "exFs (mirrorFile exEnv exR3 (js ''x.prompt.md'')) = Some (File (js ''three''))"
  "exFs (activeFile exEnv f) = None"
  unfolding exFs_def exPaths by (simp_all add: js_def)

lemma exEnv_fields:
  "win32 exEnv = False" "existsFollowsLinks exEnv = True"
  "symlinkFailure exEnv source target = None" "writeFailure exEnv p = None"
  "getPromptsDirectory exEnv = js ''/s/prompts''"
  "repositoryConfigs exEnv = [\<lparr> url = exR1, branch = exMain \<rparr>, \<lparr> url = exR2, branch = exMain \<rparr>,
                          \<lparr> url = exR3, branch = exMain \<rparr>]"
  by (simp_all add: exEnv_def)

lemma mirror_not_active: "mirrorFile exEnv r f \<noteq> activeFile exEnv g"
  by (simp add: mirrorFile_def activeFile_def getRepositoryPath_def joinPath_def exEnv_def js_def)

theorem activatePrompt_rejects_witness:
  "\<not> fileExists exEnv exFs (joinPath (getRepositoryPath exEnv exR3) (js ''a.md'')) \<and>
   (\<exists>err. activatePrompt exEnv exFs (js ''a.md'') (Some exR3) = (Inl err, exFs)) \<and>
   (\<exists>err. activatePrompt exEnv exFs (js ''a.md'') None = (Inl err, exFs))"
proof -
  have absent: "\<not> fileExists exEnv exFs (joinPath (getRepositoryPath exEnv exR3) (js ''a.md''))"
    using exists_none [of exFs "mirrorFile exEnv exR3 (js ''a.md'')" exEnv] exFs_lookup(3)
    by (simp add: mirrorFile_def)
  show ?thesis
    using absent activatePrompt_rejects [of "Some exR3" exEnv exFs "js ''a.md''"]
      activatePrompt_rejects [of None exEnv exFs "js ''a.md''"]
    by simp
qed

lemma reposWithFile_a: "reposWithFile exEnv exFs (js ''a.md'') = [exR1]"
  using exFs_lookup(1-3)
  by (simp add: reposWithFile_def exEnv_fields exists_file exists_none flip: mirrorFile_def)

lemma reposWithFile_a_user: "reposWithFile exEnv exUserFs (js ''a.md'') = [exR1]"
  using exFs_lookup(1-3)
  by (simp add: reposWithFile_def exEnv_fields exists_file exists_none exUserFs_def
      mirror_not_active flip: mirrorFile_def)

lemma activate_link:
  assumes "repoUrl \<noteq> []"
    and "workspaceName = getUniqueWorkspaceName e fs promptPath repoUrl"
    and "fileExists e fs (mirrorFile e repoUrl promptPath)"
    and "fileExists e fs (activeFile e workspaceName) \<or> fs (activeFile e workspaceName) = None"
    and "symlinkFailure e (mirrorFile e repoUrl promptPath) (activeFile e workspaceName) = None"
    and "fileExists e (fs(activeFile e workspaceName \<mapsto> Symlink (mirrorFile e repoUrl promptPath)))
           (activeFile e workspaceName)"
  shows "activatePrompt e fs promptPath (Some repoUrl)
         = (Inr workspaceName,
            fs(activeFile e workspaceName \<mapsto> Symlink (mirrorFile e repoUrl promptPath)))"
proof -
  define source where "source = mirrorFile e repoUrl promptPath"
  define target where "target = activeFile e workspaceName"
  have link: "linkOrCopy e (fs(target := None)) source target
              = (Inr (), fs(target \<mapsto> Symlink source))"
    using assms(5,6)
    by (simp add: linkOrCopy_def symlink_def verifyCreated_def source_def target_def)
  have "createPromptSymlink e fs source target = (Inr (), fs(target \<mapsto> Symlink source))"
  proof (cases "fileExists e fs target")
    case True
    then have "fs target \<noteq> None"
      using exists_none [of fs target e] by blast
    then show ?thesis
      using True link by (simp add: createPromptSymlink_def delete_def)
  next
    case False
    then have "fs target = None"
      using assms(4) by (simp add: target_def)
    then have "fs(target := None) = fs"
      by auto
    then show ?thesis
      using False link by (simp add: createPromptSymlink_def)
  qed
  then show ?thesis
    using assms(1,3,6) unfolding assms(2) source_def target_def mirrorFile_def activeFile_def
    by (simp add: activatePrompt_def Let_def)
qed

lemma activate_a:
  "activatePrompt exEnv exFs (js ''a.md'') (Some exR1)
   = (Inr (js ''a.md''),
      exFs(activeFile exEnv (js ''a.md'') \<mapsto> Symlink (mirrorFile exEnv exR1 (js ''a.md''))))"
proof (rule activate_link)
  show "exR1 \<noteq> []"
    by (simp add: exR1_def js_def)
  show "js ''a.md'' = getUniqueWorkspaceName exEnv exFs (js ''a.md'') exR1"
    by (simp add: getUniqueWorkspaceName_def reposWithFile_a)
  show "fileExists exEnv exFs (mirrorFile exEnv exR1 (js ''a.md''))"
    by (rule exists_file) (rule exFs_lookup)
  show "fileExists exEnv exFs (activeFile exEnv (js ''a.md'')) \<or>
        exFs (activeFile exEnv (js ''a.md'')) = None"
    by (simp add: exFs_lookup)
  show "symlinkFailure exEnv (mirrorFile exEnv exR1 (js ''a.md'')) (activeFile exEnv (js ''a.md''))
        = None"
    by (simp add: exEnv_fields)
  show "fileExists exEnv
      (exFs(activeFile exEnv (js ''a.md'') \<mapsto> Symlink (mirrorFile exEnv exR1 (js ''a.md''))))
      (activeFile exEnv (js ''a.md''))"
    by (rule exists_link_file [where content = "js ''text''"
          and t = "mirrorFile exEnv exR1 (js ''a.md'')"])
       (simp_all add: exFs_lookup mirror_not_active)
qed

theorem activate_deactivate_roundtrip_witness:
  "activatePrompt exEnv exFs (js ''a.md'') (Some exR1)
     = (Inr (js ''a.md''),
        exFs(activeFile exEnv (js ''a.md'') \<mapsto> Symlink (mirrorFile exEnv exR1 (js ''a.md'')))) \<and>
   exFs (joinPath (getPromptsDirectory exEnv) (js ''a.md'')) = None \<and>
   deactivatePrompt exEnv
     (exFs(activeFile exEnv (js ''a.md'') \<mapsto> Symlink (mirrorFile exEnv exR1 (js ''a.md''))))
     (js ''a.md'') = (Inr (), exFs)"
proof -
  have absent: "exFs (joinPath (getPromptsDirectory exEnv) (js ''a.md'')) = None"
    using exFs_lookup(7) by (simp add: activeFile_def)
  show ?thesis
    using activate_a absent activate_deactivate_roundtrip [OF activate_a absent] by simp
qed

lemma activate_a_user:
  "activatePrompt exEnv exUserFs (js ''a.md'') (Some exR1)
   = (Inr (js ''a.md''),
      exUserFs(activeFile exEnv (js ''a.md'') \<mapsto> Symlink (mirrorFile exEnv exR1 (js ''a.md''))))"
proof (rule activate_link)
  show "exR1 \<noteq> []"
    by (simp add: exR1_def js_def)
  show "js ''a.md'' = getUniqueWorkspaceName exEnv exUserFs (js ''a.md'') exR1"
    by (simp add: getUniqueWorkspaceName_def reposWithFile_a_user)
  show "fileExists exEnv exUserFs (mirrorFile exEnv exR1 (js ''a.md''))"
    by (rule exists_file [where content = "js ''text''"])
       (simp add: exUserFs_def exFs_lookup mirror_not_active)
  have "fileExists exEnv exUserFs (activeFile exEnv (js ''a.md''))"
    by (rule exists_file [where content = "js ''mine''"]) (simp add: exUserFs_def)
  then show "fileExists exEnv exUserFs (activeFile exEnv (js ''a.md'')) \<or>
        exUserFs (activeFile exEnv (js ''a.md'')) = None" ..
  show "symlinkFailure exEnv (mirrorFile exEnv exR1 (js ''a.md'')) (activeFile exEnv (js ''a.md''))
        = None"
    by (simp add: exEnv_fields)
  show "fileExists exEnv
      (exUserFs(activeFile exEnv (js ''a.md'') \<mapsto> Symlink (mirrorFile exEnv exR1 (js ''a.md''))))
      (activeFile exEnv (js ''a.md''))"
    by (rule exists_link_file [where content = "js ''text''"
          and t = "mirrorFile exEnv exR1 (js ''a.md'')"])
       (simp_all add: exUserFs_def exFs_lookup mirror_not_active)
qed

lemma deactivate_link:
  assumes "fs (activeFile e workspaceName) = Some (Symlink t)"
    and "fileExists e fs (activeFile e workspaceName)"
  shows "deactivatePrompt e fs workspaceName = (Inr (), fs(activeFile e workspaceName := None))"
  using assms
  by (simp add: deactivatePrompt_def removePromptSymlink_def lstat_def delete_def Let_def
      activeFile_def)

text \<open>
  C8 as stated fails when the target name was taken: the user's own file \<open>a.md\<close> is
  deleted by the activation (overwrite semantics) and is not there after the deactivation.
\<close>

theorem activate_deactivate_counterexample:
  "exUserFs (activeFile exEnv (js ''a.md'')) = Some (File (js ''mine'')) \<and>
   fst (activatePrompt exEnv exUserFs (js ''a.md'') (Some exR1)) = Inr (js ''a.md'') \<and>
   snd (deactivatePrompt exEnv (snd (activatePrompt exEnv exUserFs (js ''a.md'') (Some exR1)))
          (js ''a.md'')) (activeFile exEnv (js ''a.md'')) = None"
proof -
  define fs1 where
    "fs1 = exUserFs(activeFile exEnv (js ''a.md'') \<mapsto> Symlink (mirrorFile exEnv exR1 (js ''a.md'')))"
  have "fileExists exEnv fs1 (activeFile exEnv (js ''a.md''))"
    unfolding fs1_def
    by (rule exists_link_file [where content = "js ''text''"
          and t = "mirrorFile exEnv exR1 (js ''a.md'')"])
       (simp_all add: exUserFs_def exFs_lookup mirror_not_active)
  then have "deactivatePrompt exEnv fs1 (js ''a.md'')
             = (Inr (), fs1(activeFile exEnv (js ''a.md'') := None))"
    by (intro deactivate_link [where t = "mirrorFile exEnv exR1 (js ''a.md'')"])
       (simp_all add: fs1_def)
  moreover have "activatePrompt exEnv exUserFs (js ''a.md'') (Some exR1) = (Inr (js ''a.md''), fs1)"
    unfolding fs1_def by (rule activate_a_user)
  moreover have "exUserFs (activeFile exEnv (js ''a.md'')) = Some (File (js ''mine''))"
    by (simp add: exUserFs_def)
  ultimately show ?thesis
    by simp
qed

section \<open>Proofs: workspace names\<close>

lemma lastIndexOf_nonneg: "0 \<le> lastIndexOf s c \<longleftrightarrow> c \<in> set s"
  by (induction s) (auto simp add: Let_def)

lemma lastIndexOf_last:
  "c \<notin> set ext \<Longrightarrow> lastIndexOf (base @ c # ext) c = int (length base)"
proof (induction base)
  case Nil
  then have "\<not> 0 \<le> lastIndexOf ext c"
    by (simp add: lastIndexOf_nonneg)
  then show ?case by (simp add: Let_def)
next
  case (Cons x base)
  then show ?case by (simp add: Let_def)
qed

text \<open>
  C3 (amended). When two or more configured repositories hold the file in their mirrors, the
  workspace name has the repository identifier, after an \<open>@\<close>, in front of the last dot
  of the file name: \<open>x.prompt.md\<close> becomes \<open>x.prompt@<id>.md\<close>. This is the documented
  \<open><base>@<repoId><ext>\<close> with the last extension \<open>.md\<close> as \<open><ext>\<close>.
\<close>

theorem getUniqueWorkspaceName_last_dot:
  assumes "2 \<le> length (reposWithFile e fs (base @ dot # ext))"
    and "base \<noteq> []" and "dot \<notin> set ext"
  shows "getUniqueWorkspaceName e fs (base @ dot # ext) repositoryUrl
         = base @ js ''@'' @ getRepositoryIdentifier repositoryUrl @ dot # ext"
  using assms by (simp add: getUniqueWorkspaceName_def Let_def lastIndexOf_last)

lemma exFs_exists:
  "fileExists exEnv exFs (mirrorFile exEnv exR1 (js ''x.prompt.md''))"
  "fileExists exEnv exFs (mirrorFile exEnv exR2 (js ''x.prompt.md''))"
  "fileExists exEnv exFs (mirrorFile exEnv exR3 (js ''x.prompt.md''))"
  by (rule exists_file, rule exFs_lookup)+

lemma reposWithFile_x: "reposWithFile exEnv exFs (js ''x.prompt.md'') = [exR1, exR2, exR3]"
  using exFs_lookup(4-6)
  by (simp add: reposWithFile_def exEnv_fields exists_file flip: mirrorFile_def)

lemma x_prompt_md: "js ''x.prompt'' @ dot # js ''md'' = js ''x.prompt.md''"
  by (simp add: js_def dot_def)

theorem getUniqueWorkspaceName_last_dot_witness:
  "2 \<le> length (reposWithFile exEnv exFs (js ''x.prompt'' @ dot # js ''md'')) \<and>
   js ''x.prompt'' \<noteq> [] \<and> dot \<notin> set (js ''md'') \<and>
   getUniqueWorkspaceName exEnv exFs (js ''x.prompt.md'') exR1 = js ''x.prompt@o-r.md'' \<and>
   getUniqueWorkspaceName exEnv exFs (js ''x.prompt.md'') exR3 = js ''x.prompt@p-q.md''"
proof -
  have h1: "2 \<le> length (reposWithFile exEnv exFs (js ''x.prompt'' @ dot # js ''md''))"
    by (simp add: x_prompt_md reposWithFile_x)
  have h2: "js ''x.prompt'' \<noteq> []" and h3: "dot \<notin> set (js ''md'')"
    by (simp_all add: js_def dot_def)
  have e: "js ''x.prompt'' @ js ''@'' @ js ''o-r'' @ dot # js ''md'' = js ''x.prompt@o-r.md''"
    "js ''x.prompt'' @ js ''@'' @ js ''p-q'' @ dot # js ''md'' = js ''x.prompt@p-q.md''"
    by (simp_all add: js_def dot_def)
  show ?thesis
    using h1 h2 h3 getUniqueWorkspaceName_last_dot [OF h1 h2 h3, of exR1]
      getUniqueWorkspaceName_last_dot [OF h1 h2 h3, of exR3]
    by (simp add: x_prompt_md exIds e)
qed

text \<open>
  C3 as stated fails: the name computed for \<open>x.prompt.md\<close> is not
  \<open>x@<id>.prompt.md\<close>.
\<close>

theorem getUniqueWorkspaceName_compound_counterexample:
  "fileExists exEnv exFs (mirrorFile exEnv exR1 (js ''x.prompt.md'')) \<and>
   fileExists exEnv exFs (mirrorFile exEnv exR3 (js ''x.prompt.md'')) \<and>
   getUniqueWorkspaceName exEnv exFs (js ''x.prompt.md'') exR1
     \<noteq> js ''x@'' @ getRepositoryIdentifier exR1 @ js ''.prompt.md''"
proof -
  have "getUniqueWorkspaceName exEnv exFs (js ''x.prompt.md'') exR1 = js ''x.prompt@o-r.md''"
    by (simp add: getUniqueWorkspaceName_def reposWithFile_x Let_def exIds)
       (simp add: js_def dot_def)
  moreover have "js ''x.prompt@o-r.md'' \<noteq> js ''x@'' @ js ''o-r'' @ js ''.prompt.md''"
    by (simp add: js_def)
  ultimately show ?thesis
    by (simp add: exIds exFs_exists)
qed

lemma two_members: "x \<in> set xs \<Longrightarrow> y \<in> set xs \<Longrightarrow> x \<noteq> y \<Longrightarrow> 2 \<le> length xs"
proof (cases xs)
  case Nil
  assume "x \<in> set xs"
  with Nil show ?thesis by simp
next
  case (Cons a as)
  assume "x \<in> set xs" "y \<in> set xs" "x \<noteq> y"
  with Cons have "as \<noteq> []" by auto
  with Cons show ?thesis by (cases as) simp_all
qed

lemma suffixed_name:
  assumes "2 \<le> length (reposWithFile e fs f)"
  shows "\<exists>baseName extension. f = baseName @ extension \<and>
           (\<forall>repositoryUrl. getUniqueWorkspaceName e fs f repositoryUrl
              = baseName @ js ''@'' @ getRepositoryIdentifier repositoryUrl @ extension)"
proof (cases "0 < lastIndexOf f dot")
  case True
  have "f = take (nat (lastIndexOf f dot)) f @ drop (nat (lastIndexOf f dot)) f"
    by simp
  then show ?thesis
    using assms True
    by (intro exI [of _ "take (nat (lastIndexOf f dot)) f"]
          exI [of _ "drop (nat (lastIndexOf f dot)) f"] conjI)
       (simp_all add: getUniqueWorkspaceName_def Let_def)
next
  case False
  have "f = f @ []" by simp
  then show ?thesis
    using assms False
    by (intro exI [of _ f] exI [of _ "[]"] conjI) (simp_all add: getUniqueWorkspaceName_def Let_def)
qed

text \<open>
  C4 (amended). For two configured repositories with different URLs whose mirrors both hold
  \<open>f\<close>, neither workspace name is the bare name \<open>f\<close>, and the two names differ exactly
  when the repository identifiers computed from the two URLs differ.
\<close>

theorem workspaceName_distinct:
  assumes "c1 \<in> set (repositoryConfigs e)" and "c2 \<in> set (repositoryConfigs e)"
    and "url c1 \<noteq> url c2"
    and "fileExists e fs (joinPath (getRepositoryPath e (url c1)) f)"
    and "fileExists e fs (joinPath (getRepositoryPath e (url c2)) f)"
  shows "getUniqueWorkspaceName e fs f (url c1) \<noteq> f \<and>
         getUniqueWorkspaceName e fs f (url c2) \<noteq> f \<and>
         (getUniqueWorkspaceName e fs f (url c1) = getUniqueWorkspaceName e fs f (url c2)
            \<longleftrightarrow> getRepositoryIdentifier (url c1) = getRepositoryIdentifier (url c2))"
proof -
  have "url c1 \<in> set (reposWithFile e fs f)" "url c2 \<in> set (reposWithFile e fs f)"
    using assms(1,2,4,5) by (auto simp add: reposWithFile_def)
  then have "2 \<le> length (reposWithFile e fs f)"
    using assms(3) by (rule two_members)
  from suffixed_name [OF this] obtain baseName extension
    where f: "f = baseName @ extension"
      and name: "\<And>repositoryUrl. getUniqueWorkspaceName e fs f repositoryUrl
              = baseName @ js ''@'' @ getRepositoryIdentifier repositoryUrl @ extension"
    by blast
  have longer: "length (getUniqueWorkspaceName e fs f repositoryUrl) > length f" for repositoryUrl
    unfolding name by (simp add: f js_def)
  have "getUniqueWorkspaceName e fs f (url c1) \<noteq> f" "getUniqueWorkspaceName e fs f (url c2) \<noteq> f"
    using longer [of "url c1"] longer [of "url c2"] by auto
  then show ?thesis
    by (simp add: name)
qed

theorem workspaceName_distinct_witness:
  "\<lparr> url = exR1, branch = exMain \<rparr> \<in> set (repositoryConfigs exEnv) \<and>
   \<lparr> url = exR3, branch = exMain \<rparr> \<in> set (repositoryConfigs exEnv) \<and>
   exR1 \<noteq> exR3 \<and>
   fileExists exEnv exFs (joinPath (getRepositoryPath exEnv exR1) (js ''x.prompt.md'')) \<and>
   fileExists exEnv exFs (joinPath (getRepositoryPath exEnv exR3) (js ''x.prompt.md'')) \<and>
   getUniqueWorkspaceName exEnv exFs (js ''x.prompt.md'') exR1 \<noteq> js ''x.prompt.md'' \<and>
   getUniqueWorkspaceName exEnv exFs (js ''x.prompt.md'') exR3 \<noteq> js ''x.prompt.md'' \<and>
   getUniqueWorkspaceName exEnv exFs (js ''x.prompt.md'') exR1
     \<noteq> getUniqueWorkspaceName exEnv exFs (js ''x.prompt.md'') exR3"
proof -
  have c1: "\<lparr> url = exR1, branch = exMain \<rparr> \<in> set (repositoryConfigs exEnv)"
    and c3: "\<lparr> url = exR3, branch = exMain \<rparr> \<in> set (repositoryConfigs exEnv)"
    by (simp_all add: exEnv_fields)
  have ne: "url \<lparr> url = exR1, branch = exMain \<rparr> \<noteq> url \<lparr> url = exR3, branch = exMain \<rparr>"
    by (simp add: exR1_def exR3_def js_def)
  have f1: "fileExists exEnv exFs
      (joinPath (getRepositoryPath exEnv (url \<lparr> url = exR1, branch = exMain \<rparr>)) (js ''x.prompt.md''))"
    using exFs_exists(1) by (simp add: mirrorFile_def)
  have f3: "fileExists exEnv exFs
      (joinPath (getRepositoryPath exEnv (url \<lparr> url = exR3, branch = exMain \<rparr>)) (js ''x.prompt.md''))"
    using exFs_exists(3) by (simp add: mirrorFile_def)
  have ids: "getRepositoryIdentifier exR1 \<noteq> getRepositoryIdentifier exR3"
    by (simp add: exIds js_def)
  show ?thesis
    using c1 c3 ne f1 f3 ids workspaceName_distinct [OF c1 c3 ne f1 f3] by simp
qed

text \<open>
  C4 as stated fails for \<open>https://github.com/o/r\<close> and \<open>https://gitlab.com/o/r\<close>: both
  URLs have the identifier \<open>o-r\<close>, so both files get the same workspace name.
\<close>

theorem workspaceName_distinct_counterexample:
  "exR1 \<noteq> exR2 \<and>
   fileExists exEnv exFs (mirrorFile exEnv exR1 (js ''x.prompt.md'')) \<and>
   fileExists exEnv exFs (mirrorFile exEnv exR2 (js ''x.prompt.md'')) \<and>
   getUniqueWorkspaceName exEnv exFs (js ''x.prompt.md'') exR1
     = getUniqueWorkspaceName exEnv exFs (js ''x.prompt.md'') exR2"
proof -
  have "exR1 \<noteq> exR2"
    by (simp add: exR1_def exR2_def js_def)
  then show ?thesis
    by (simp add: getUniqueWorkspaceName_def reposWithFile_x Let_def exIds exFs_exists)
qed

section \<open>Proofs: the sync pass\<close>


lemma syncRepository_no_files:
  "fetchTree e entry = Inr (api, owner, repo, tree) \<Longrightarrow> filterRelevantFiles e tree = [] \<Longrightarrow>
   syncRepository e fs entry
     = (\<lparr> repository = url entry, success = False, itemsUpdated = 0,
          error = Some (js ''No relevant files found, make sure prompts are in valid directories: ''
                        @ promptLocation) \<rparr>,
        [url entry @ js '': No relevant files found''], fs)"
  by (simp add: syncRepository_def Let_def)

lemma syncRepositories_results:
  "\<exists>new. fst (syncRepositories e cs results tot errs fs) = results @ new \<and>
         list_all2 (\<lambda>entry result. \<exists>fs'. result = fst (syncRepository e fs' entry)) cs new"
proof (induction cs arbitrary: results tot errs fs)
  case Nil
  then show ?case by simp
next
  case (Cons entry rest)
  obtain result lines fs' where step: "syncRepository e fs entry = (result, lines, fs')"
    by (cases "syncRepository e fs entry") auto
  from Cons [of "results @ [result]"
      "if success result then tot + itemsUpdated result else tot" "errs @ lines" fs']
  obtain new where new:
    "fst (syncRepositories e rest (results @ [result])
           (if success result then tot + itemsUpdated result else tot) (errs @ lines) fs')
     = (results @ [result]) @ new"
    "list_all2 (\<lambda>entry result. \<exists>fs'. result = fst (syncRepository e fs' entry)) rest new"
    by blast
  have "result = fst (syncRepository e fs entry)"
    using step by simp
  then have "list_all2 (\<lambda>entry result. \<exists>fs'. result = fst (syncRepository e fs' entry))
               (entry # rest) (result # new)"
    using new(2) by auto
  then show ?case
    using new(1) step by (intro exI [of _ "result # new"]) simp
qed

lemma pass_repositories:
  "repositories (fst (syncMultipleRepositories e fs))
   = fst (syncRepositories e (repositoryConfigs e) [] 0 [] fs)"
  by (cases "syncRepositories e (repositoryConfigs e) [] 0 [] fs")
     (simp add: syncMultipleRepositories_def)

lemma pass_results:
  "list_all2 (\<lambda>entry result. \<exists>fs'. result = fst (syncRepository e fs' entry))
     (repositoryConfigs e) (repositories (fst (syncMultipleRepositories e fs)))"
proof -
  obtain new where
    "fst (syncRepositories e (repositoryConfigs e) [] 0 [] fs) = [] @ new"
    "list_all2 (\<lambda>entry result. \<exists>fs'. result = fst (syncRepository e fs' entry))
       (repositoryConfigs e) new"
    using syncRepositories_results [of e "repositoryConfigs e" "[]" 0 "[]" fs] by blast
  then show ?thesis
    by (simp add: pass_repositories)
qed

lemma exSync_fetch:
  "fetchTree exSyncEnv \<lparr> url = exR2, branch = exMain \<rparr>
     = Inl (Error (js ''Unsupported repository URL''))"
  "fetchTree exSyncEnv \<lparr> url = exR3, branch = exMain \<rparr>
     = Inr (exEmptyApi, js ''p'', js ''q'',
            [\<lparr> path = js ''README.md'', type = js ''blob'' \<rparr>,
             \<lparr> path = js ''prompts'', type = js ''tree'' \<rparr>])"
  "fetchTree exSyncEnv \<lparr> url = exR1, branch = exMain \<rparr> = Inr (exApi, js ''o'', js ''r'', exTree)"
proof -
  have ne: "exR2 \<noteq> exR1" "exR2 \<noteq> exR3" "exR3 \<noteq> exR1"
    by (simp_all add: exR1_def exR2_def exR3_def js_def)
  have fields: "contextAvailable exSyncEnv"
    "createFromUrl exSyncEnv exR2 = Inl (Error (js ''Unsupported repository URL''))"
    "createFromUrl exSyncEnv exR3 = Inr exEmptyApi"
    "createFromUrl exSyncEnv exR1 = Inr exApi"
    using ne by (simp_all add: exSyncEnv_def exEnv_def)
  have auth: "authenticate exApi = Inr ()" "authenticate exEmptyApi = Inr ()"
    by (simp_all add: authenticate_def exApi_def exEmptyApi_def)
  show "fetchTree exSyncEnv \<lparr> url = exR2, branch = exMain \<rparr>
     = Inl (Error (js ''Unsupported repository URL''))"
    by (simp add: fetchTree_def fields)
  show "fetchTree exSyncEnv \<lparr> url = exR3, branch = exMain \<rparr>
     = Inr (exEmptyApi, js ''p'', js ''q'',
            [\<lparr> path = js ''README.md'', type = js ''blob'' \<rparr>,
             \<lparr> path = js ''prompts'', type = js ''tree'' \<rparr>])"
    by (simp add: fetchTree_def fields auth) (simp add: exEmptyApi_def exApi_def)
  show "fetchTree exSyncEnv \<lparr> url = exR1, branch = exMain \<rparr> = Inr (exApi, js ''o'', js ''r'', exTree)"
    by (simp add: fetchTree_def fields auth) (simp add: exApi_def)
qed

lemma exSync_configs:
  "repositoryConfigs exSyncEnv = [\<lparr> url = exR2, branch = exMain \<rparr>, \<lparr> url = exR3, branch = exMain \<rparr>,
                           \<lparr> url = exR1, branch = exMain \<rparr>]"
  by (simp add: exSyncEnv_def)

lemma promptLocation_text:
  "promptLocation = js ''agents/, chatmodes/, chatmode/, instructions/, prompts/''"
  by (simp add: promptLocation_def REPO_SYNC_CHAT_MODE_PATH_def REPO_SYNC_CHAT_MODE_LEGACY_PATH_def
      REPO_SYNC_CHAT_MODE_LEGACY_SINGULAR_PATH_def REPO_SYNC_INSTRUCTIONS_PATH_def
      REPO_SYNC_PROMPT_PATH_def js_def)

text \<open>
  C6. A repository whose tree has no file passing the filter gets the entry
  \<open>success = false\<close>, \<open>itemsUpdated = 0\<close> with the error \<open>No relevant files found, ...\<close>,
  which makes the pass unsuccessful; the loop goes on: there is an entry for every
  configured repository.
\<close>

theorem syncMultipleRepositories_no_relevant_files:
  "length (repositories (fst (syncMultipleRepositories e fs))) = length (repositoryConfigs e) \<and>
   (\<forall>i api owner repo tree.
      i < length (repositoryConfigs e) \<and>
      fetchTree e (repositoryConfigs e ! i) = Inr (api, owner, repo, tree) \<and>
      filterRelevantFiles e tree = [] \<longrightarrow>
      repositories (fst (syncMultipleRepositories e fs)) ! i
        = \<lparr> repository = url (repositoryConfigs e ! i), success = False, itemsUpdated = 0,
            error = Some (js ''No relevant files found, make sure prompts are in valid directories: ''
                          @ promptLocation) \<rparr> \<and>
      \<not> overallSuccess (fst (syncMultipleRepositories e fs)))"
proof (intro conjI allI impI)
  note all = pass_results [of e fs]
  show len: "length (repositories (fst (syncMultipleRepositories e fs)))
             = length (repositoryConfigs e)"
    using list_all2_lengthD [OF all] by simp
  fix i api owner repo tree
  assume "i < length (repositoryConfigs e) \<and>
      fetchTree e (repositoryConfigs e ! i) = Inr (api, owner, repo, tree) \<and>
      filterRelevantFiles e tree = []"
  then have i: "i < length (repositoryConfigs e)"
    and tree: "fetchTree e (repositoryConfigs e ! i) = Inr (api, owner, repo, tree)"
    and none: "filterRelevantFiles e tree = []"
    by simp_all
  from list_all2_nthD [OF all i] obtain fs' where
    "repositories (fst (syncMultipleRepositories e fs)) ! i
     = fst (syncRepository e fs' (repositoryConfigs e ! i))"
    by blast
  then show entry: "repositories (fst (syncMultipleRepositories e fs)) ! i
        = \<lparr> repository = url (repositoryConfigs e ! i), success = False, itemsUpdated = 0,
            error = Some (js ''No relevant files found, make sure prompts are in valid directories: ''
                          @ promptLocation) \<rparr>"
    by (simp add: syncRepository_no_files [OF tree none])
  have "\<not> success (repositories (fst (syncMultipleRepositories e fs)) ! i)"
    by (simp add: entry)
  then have "\<not> list_all success (repositories (fst (syncMultipleRepositories e fs)))"
    using i len by (auto simp add: list_all_length)
  then show "\<not> overallSuccess (fst (syncMultipleRepositories e fs))"
    by (cases "syncRepositories e (repositoryConfigs e) [] 0 [] fs")
       (simp add: syncMultipleRepositories_def)
qed

lemma exEmpty_filter:
  "filterRelevantFiles exSyncEnv [\<lparr> path = js ''README.md'', type = js ''blob'' \<rparr>,
             \<lparr> path = js ''prompts'', type = js ''tree'' \<rparr>] = []"
  by (simp add: filterRelevantFiles_def allowedPaths_def exSyncEnv_def exEnv_def Let_def
      normalizeSeparators_def REPO_SYNC_CHAT_MODE_PATH_def REPO_SYNC_CHAT_MODE_LEGACY_PATH_def
      REPO_SYNC_CHAT_MODE_LEGACY_SINGULAR_PATH_def REPO_SYNC_INSTRUCTIONS_PATH_def
      REPO_SYNC_PROMPT_PATH_def str_defs)

theorem syncMultipleRepositories_no_relevant_files_witness:
  "1 < length (repositoryConfigs exSyncEnv) \<and>
   fetchTree exSyncEnv (repositoryConfigs exSyncEnv ! 1)
     = Inr (exEmptyApi, js ''p'', js ''q'',
            [\<lparr> path = js ''README.md'', type = js ''blob'' \<rparr>,
             \<lparr> path = js ''prompts'', type = js ''tree'' \<rparr>]) \<and>
   filterRelevantFiles exSyncEnv [\<lparr> path = js ''README.md'', type = js ''blob'' \<rparr>,
             \<lparr> path = js ''prompts'', type = js ''tree'' \<rparr>] = [] \<and>
   length (repositories (fst (syncMultipleRepositories exSyncEnv Map.empty))) = 3 \<and>
   repositories (fst (syncMultipleRepositories exSyncEnv Map.empty)) ! 1
     = \<lparr> repository = exR3, success = False, itemsUpdated = 0,
         error = Some (js ''No relevant files found, make sure prompts are in valid directories: agents/, chatmodes/, chatmode/, instructions/, prompts/'') \<rparr> \<and>
   \<not> overallSuccess (fst (syncMultipleRepositories exSyncEnv Map.empty))"
proof -
  have msg: "js ''No relevant files found, make sure prompts are in valid directories: ''
      @ js ''agents/, chatmodes/, chatmode/, instructions/, prompts/''
    = js ''No relevant files found, make sure prompts are in valid directories: agents/, chatmodes/, chatmode/, instructions/, prompts/''"
    by (simp add: js_def)
  have hyp: "1 < length (repositoryConfigs exSyncEnv) \<and>
      fetchTree exSyncEnv (repositoryConfigs exSyncEnv ! 1)
        = Inr (exEmptyApi, js ''p'', js ''q'',
            [\<lparr> path = js ''README.md'', type = js ''blob'' \<rparr>,
             \<lparr> path = js ''prompts'', type = js ''tree'' \<rparr>]) \<and>
      filterRelevantFiles exSyncEnv [\<lparr> path = js ''README.md'', type = js ''blob'' \<rparr>,
             \<lparr> path = js ''prompts'', type = js ''tree'' \<rparr>] = []"
    using exSync_fetch(2) exEmpty_filter by (simp add: exSync_configs)
  show ?thesis
    using hyp
      syncMultipleRepositories_no_relevant_files [of exSyncEnv Map.empty, THEN conjunct1]
      syncMultipleRepositories_no_relevant_files [of exSyncEnv Map.empty, THEN conjunct2,
        rule_format, OF hyp]
    by (simp add: exSync_configs promptLocation_text msg)
qed

section \<open>Proofs: a second pass\<close>

lemma linkOrCopy_frame:
  assumes "fs target = None" "q \<noteq> target"
  shows "snd (linkOrCopy e fs source target) q = fs q"
proof -
  have w: "writeFile e fs target content = Inr fs' \<Longrightarrow> fs' q = fs q" for content fs'
    using assms
    by (auto simp add: writeFile_def writeFileContent_plain split: option.splits)
  show ?thesis
    using assms w
    by (auto simp add: linkOrCopy_def symlink_def verifyCreated_def copyFallback_def
        split: sum.splits option.splits if_splits)
qed

lemma createPromptSymlink_frame:
  assumes "fs target = None" "q \<noteq> target"
  shows "snd (createPromptSymlink e fs source target) q = fs q"
  using assms linkOrCopy_frame [of fs target q e source]
  by (simp add: createPromptSymlink_def exists_none)

lemma updateActivePromptSymlink_frame:
  assumes "\<not> isLink (fs q)"
  shows "updateActivePromptSymlink e fs fileName repositoryUrl q = fs q"
proof -
  define w where
    "w = joinPath (getPromptsDirectory e) (getUniqueWorkspaceName e fs fileName repositoryUrl)"
  define source where "source = joinPath (getRepositoryPath e repositoryUrl) fileName"
  show ?thesis
  proof (cases "fileExists e fs w \<and> isLink (fs w)")
    case False
    then have "updateActivePromptSymlink e fs fileName repositoryUrl = fs"
      by (cases "fs w" rule: isLink.cases)
         (auto simp add: updateActivePromptSymlink_def Let_def lstat_def simp flip: w_def)
    then show ?thesis by simp
  next
    case True
    then obtain t where t: "fs w = Some (Symlink t)"
      by (cases "fs w" rule: isLink.cases) auto
    have qw: "q \<noteq> w"
      using assms t by auto
    have rm: "removePromptSymlink e fs w = (Inr (), fs(w := None))"
      using True t by (simp add: removePromptSymlink_def lstat_def delete_def)
    have "updateActivePromptSymlink e fs fileName repositoryUrl
          = snd (createPromptSymlink e (fs(w := None)) source w)"
      using True t rm
      by (simp add: updateActivePromptSymlink_def Let_def lstat_def
          flip: w_def source_def)
    then show ?thesis
      using createPromptSymlink_frame [of "fs(w := None)" w q e source] qw by simp
  qed
qed

lemma applyWrite_plain:
  assumes "\<not> isLink (fs (joinPath (getRepositoryPath e repositoryUrl) fileName))"
  shows "applyWrite e repositoryUrl (fileName, content) fs
         = (if fs (joinPath (getRepositoryPath e repositoryUrl) fileName) = Some (File content)
            then (False, fs)
            else case writeFailure e (joinPath (getRepositoryPath e repositoryUrl) fileName) of
                   Some err \<Rightarrow> (False, fs)
                 | None \<Rightarrow>
                     (True, updateActivePromptSymlink e
                        (fs(joinPath (getRepositoryPath e repositoryUrl) fileName \<mapsto> File content))
                        fileName repositoryUrl))"
  using assms
  by (simp add: applyWrite_def Let_def shouldUpdateFile_plain writeFileContent_plain
      split: option.splits)


lemma settled_simps:
  "settled e fs (p, content) = (fs p = Some (File content) \<or> writeFailure e p \<noteq> None)"
  by (simp add: settled_def)

lemma applyWrite_settles:
  assumes nl: "\<forall>q\<in>W. \<not> isLink (fs q)"
    and pW: "joinPath (getRepositoryPath e repositoryUrl) fileName \<in> W"
  shows "\<forall>q\<in>W. \<not> isLink (snd (applyWrite e repositoryUrl (fileName, content) fs) q)"
    and "settled e (snd (applyWrite e repositoryUrl (fileName, content) fs))
           (joinPath (getRepositoryPath e repositoryUrl) fileName, content)"
    and "\<And>q d. settled e fs (q, d) \<Longrightarrow>
           (q = joinPath (getRepositoryPath e repositoryUrl) fileName \<Longrightarrow> d = content) \<Longrightarrow>
           settled e (snd (applyWrite e repositoryUrl (fileName, content) fs)) (q, d)"
proof -
  define p where "p = joinPath (getRepositoryPath e repositoryUrl) fileName"
  define fs1 where "fs1 = fs(p \<mapsto> File content)"
  define fs' where "fs' = snd (applyWrite e repositoryUrl (fileName, content) fs)"
  have plain: "\<not> isLink (fs p)"
    using nl pW by (simp add: p_def)
  have upd: "updateActivePromptSymlink e fs1 fileName repositoryUrl q = fs1 q"
    if "\<not> isLink (fs1 q)" for q
    using that by (rule updateActivePromptSymlink_frame)
  consider (same) "fs' = fs" "fs p = Some (File content) \<or> writeFailure e p \<noteq> None"
    | (written) "fs' = updateActivePromptSymlink e fs1 fileName repositoryUrl"
        "writeFailure e p = None"
    using plain
      applyWrite_plain [where fs = fs and e = e and repositoryUrl = repositoryUrl
        and fileName = fileName and content = content]
    by (auto simp add: fs'_def fs1_def p_def split: option.splits if_splits)
  then have main: "(\<forall>q\<in>W. \<not> isLink (fs' q)) \<and> settled e fs' (p, content) \<and>
      (\<forall>q d. settled e fs (q, d) \<longrightarrow> (q = p \<longrightarrow> d = content) \<longrightarrow> settled e fs' (q, d))"
  proof cases
    case same
    then show ?thesis
      using nl by (simp add: settled_simps)
  next
    case written
    have agree: "fs' q = fs1 q" if "\<not> isLink (fs1 q)" for q
      using upd [OF that] written(1) by simp
    have nl1: "\<not> isLink (fs1 q)" if "q \<in> W" for q
      using nl that by (simp add: fs1_def)
    have "\<forall>q\<in>W. \<not> isLink (fs' q)"
      using agree nl1 by simp
    moreover have "fs' p = Some (File content)"
      using agree [of p] by (simp add: fs1_def)
    moreover have "settled e fs' (q, d)" if "settled e fs (q, d)" "q = p \<longrightarrow> d = content" for q d
    proof (cases "fs q = Some (File d)")
      case False
      then show ?thesis
        using that(1) by (simp add: settled_simps)
    next
      case True
      then have "fs1 q = Some (File d)"
        using that(2) by (simp add: fs1_def)
      then have "fs' q = Some (File d)"
        using agree [of q] by simp
      then show ?thesis
        by (simp add: settled_simps)
    qed
    ultimately show ?thesis
      by (simp add: settled_simps)
  qed
  show "\<forall>q\<in>W. \<not> isLink (snd (applyWrite e repositoryUrl (fileName, content) fs) q)"
    using main by (simp add: fs'_def)
  show "settled e (snd (applyWrite e repositoryUrl (fileName, content) fs))
           (joinPath (getRepositoryPath e repositoryUrl) fileName, content)"
    using main by (simp add: fs'_def p_def)
  show "\<And>q d. settled e fs (q, d) \<Longrightarrow>
           (q = joinPath (getRepositoryPath e repositoryUrl) fileName \<Longrightarrow> d = content) \<Longrightarrow>
           settled e (snd (applyWrite e repositoryUrl (fileName, content) fs)) (q, d)"
    using main by (simp add: fs'_def p_def)
qed

lemma applyWrite_settled:
  assumes "\<forall>q\<in>W. \<not> isLink (fs q)"
    and "joinPath (getRepositoryPath e repositoryUrl) fileName \<in> W"
    and "settled e fs (joinPath (getRepositoryPath e repositoryUrl) fileName, content)"
  shows "applyWrite e repositoryUrl (fileName, content) fs = (False, fs)"
proof -
  have "\<not> isLink (fs (joinPath (getRepositoryPath e repositoryUrl) fileName))"
    using assms(1,2) by simp
  then show ?thesis
    using assms(3)
      applyWrite_plain [where fs = fs and e = e and repositoryUrl = repositoryUrl
        and fileName = fileName and content = content]
    by (auto simp add: settled_simps)
qed


lemma syncFilesLoop_applyWrites:
  "syncFilesLoop e api owner repo branchName repositoryUrl files n fs
   = applyWrites e repositoryUrl (fileAttempts api owner repo branchName files) n fs"
proof (induction files arbitrary: n fs)
  case Nil
  then show ?case by simp
next
  case (Cons item items)
  show ?case
  proof (cases "getFileContent api owner repo (path item) branchName")
    case (Inl err)
    then show ?thesis by simp
  next
    case (Inr content)
    then show ?thesis
      using Cons
      by (cases "content = []")
         (auto simp add: applyWrite_def Let_def split: sum.splits)
  qed
qed

lemma applyWrites_settles:
  assumes "\<forall>q\<in>W. \<not> isLink (fs q)"
    and "\<forall>(fileName, content)\<in>set attempts.
           joinPath (getRepositoryPath e repositoryUrl) fileName \<in> W"
    and "\<forall>x\<in>S. settled e fs x"
    and "single_valued (S \<union> set (map (\<lambda>(fileName, content).
           (joinPath (getRepositoryPath e repositoryUrl) fileName, content)) attempts))"
  shows "(\<forall>q\<in>W. \<not> isLink (snd (applyWrites e repositoryUrl attempts n fs) q)) \<and>
         (\<forall>x\<in>S \<union> set (map (\<lambda>(fileName, content).
               (joinPath (getRepositoryPath e repositoryUrl) fileName, content)) attempts).
            settled e (snd (applyWrites e repositoryUrl attempts n fs)) x)"
  using assms
proof (induction attempts arbitrary: fs S n)
  case Nil
  then show ?case by simp
next
  case (Cons attempt attempts)
  obtain fileName content where attempt: "attempt = (fileName, content)"
    by (cases attempt)
  define p where "p = joinPath (getRepositoryPath e repositoryUrl) fileName"
  define fs' where "fs' = snd (applyWrite e repositoryUrl (fileName, content) fs)"
  define rest where "rest = set (map (\<lambda>(fileName, content).
           (joinPath (getRepositoryPath e repositoryUrl) fileName, content)) attempts)"
  have pW: "joinPath (getRepositoryPath e repositoryUrl) fileName \<in> W"
    using Cons.prems(2) attempt by simp
  have sv: "single_valued (insert (p, content) (S \<union> rest))"
    using Cons.prems(4) by (simp add: attempt p_def rest_def)
  have step1: "\<forall>q\<in>W. \<not> isLink (fs' q)"
    unfolding fs'_def by (rule applyWrite_settles(1) [OF Cons.prems(1) pW])
  have step2: "settled e fs' (p, content)"
    unfolding fs'_def p_def by (rule applyWrite_settles(2) [OF Cons.prems(1) pW])
  have step3: "settled e fs' (q, d)" if "settled e fs (q, d)" "q = p \<Longrightarrow> d = content" for q d
    unfolding fs'_def using that
    by (intro applyWrite_settles(3) [OF Cons.prems(1) pW]) (simp_all add: p_def)
  have keep: "settled e fs' x" if "x \<in> S" for x
  proof -
    obtain q d where x: "x = (q, d)" by (cases x)
    have "d = content" if "q = p"
      using sv that \<open>x \<in> S\<close> x by (auto simp add: single_valued_def)
    then show ?thesis
      using step3 [of q d] Cons.prems(3) \<open>x \<in> S\<close> x by blast
  qed
  have "(\<forall>q\<in>W. \<not> isLink (snd (applyWrites e repositoryUrl attempts m fs') q)) \<and>
        (\<forall>x\<in>insert (p, content) S \<union> rest.
            settled e (snd (applyWrites e repositoryUrl attempts m fs')) x)" for m
    unfolding rest_def
  proof (rule Cons.IH)
    show "\<forall>q\<in>W. \<not> isLink (fs' q)"
      by (rule step1)
    show "\<forall>(fileName, content)\<in>set attempts.
           joinPath (getRepositoryPath e repositoryUrl) fileName \<in> W"
      using Cons.prems(2) by simp
    show "\<forall>x\<in>insert (p, content) S. settled e fs' x"
      using keep step2 by auto
    show "single_valued (insert (p, content) S \<union> set (map (\<lambda>(fileName, content).
           (joinPath (getRepositoryPath e repositoryUrl) fileName, content)) attempts))"
      using sv by (simp add: rest_def)
  qed
  then show ?case
    by (cases "applyWrite e repositoryUrl (fileName, content) fs")
       (auto simp add: attempt fs'_def p_def rest_def)
qed

lemma applyWrites_settled:
  assumes "\<forall>q\<in>W. \<not> isLink (fs q)"
    and "\<forall>(fileName, content)\<in>set attempts.
           joinPath (getRepositoryPath e repositoryUrl) fileName \<in> W"
    and "\<forall>(fileName, content)\<in>set attempts.
           settled e fs (joinPath (getRepositoryPath e repositoryUrl) fileName, content)"
  shows "applyWrites e repositoryUrl attempts n fs = (n, fs)"
  using assms
proof (induction attempts)
  case Nil
  then show ?case by simp
next
  case (Cons attempt attempts)
  obtain fileName content where attempt: "attempt = (fileName, content)"
    by (cases attempt)
  have "applyWrite e repositoryUrl (fileName, content) fs = (False, fs)"
    using Cons.prems by (intro applyWrite_settled [where W = W]) (simp_all add: attempt)
  then show ?case
    using Cons by (simp add: attempt)
qed


lemma syncRepository_caught_fs:
  "fetchTree e entry = Inl err \<Longrightarrow>
   snd (snd (syncRepository e fs entry)) = fs \<and> itemsUpdated (fst (syncRepository e fs entry)) = 0"
  by (simp add: syncRepository_def Let_def)

lemma syncRepository_applyWrites:
  assumes "fetchTree e entry = Inr (api, owner, repo, tree)"
  defines "attempts \<equiv> fileAttempts api owner repo (branch entry) (filterRelevantFiles e tree)"
  shows "snd (snd (syncRepository e fs entry))
         = snd (applyWrites e (syncRepositoryUrl api owner repo) attempts 0 fs)"
    and "itemsUpdated (fst (syncRepository e fs entry))
         = (if filterRelevantFiles e tree = [] then 0
            else fst (applyWrites e (syncRepositoryUrl api owner repo) attempts 0 fs))"
  using assms(1)
  by (simp_all add: syncRepository_def Let_def syncFiles_def syncFilesLoop_applyWrites attempts_def
      split: prod.splits)

lemma mirrorWrites_fetched:
  "fetchTree e entry = Inr (api, owner, repo, tree) \<Longrightarrow>
   mirrorWrites e entry
   = map (\<lambda>(fileName, content).
            (joinPath (getRepositoryPath e (syncRepositoryUrl api owner repo)) fileName, content))
       (fileAttempts api owner repo (branch entry) (filterRelevantFiles e tree))"
  by (simp add: mirrorWrites_def)

lemma mirrorWrites_caught: "fetchTree e entry = Inl err \<Longrightarrow> mirrorWrites e entry = []"
  by (simp add: mirrorWrites_def)

lemma syncRepository_settles:
  assumes "\<forall>q\<in>W. \<not> isLink (fs q)"
    and "fst ` set (mirrorWrites e entry) \<subseteq> W"
    and "\<forall>x\<in>S. settled e fs x"
    and "single_valued (S \<union> set (mirrorWrites e entry))"
  shows "(\<forall>q\<in>W. \<not> isLink (snd (snd (syncRepository e fs entry)) q)) \<and>
         (\<forall>x\<in>S \<union> set (mirrorWrites e entry). settled e (snd (snd (syncRepository e fs entry))) x)"
proof (cases "fetchTree e entry")
  case (Inl err)
  then show ?thesis
    using assms(1,3) by (simp add: syncRepository_caught_fs mirrorWrites_caught)
next
  case (Inr fetched)
  then obtain api owner repo tree where
    fetched: "fetchTree e entry = Inr (api, owner, repo, tree)"
    by (cases fetched) auto
  define attempts where
    "attempts = fileAttempts api owner repo (branch entry) (filterRelevantFiles e tree)"
  have inW: "\<forall>(fileName, content)\<in>set attempts.
      joinPath (getRepositoryPath e (syncRepositoryUrl api owner repo)) fileName \<in> W"
    using assms(2) by (force simp add: mirrorWrites_fetched [OF fetched] attempts_def)
  show ?thesis
    unfolding syncRepository_applyWrites(1) [OF fetched] mirrorWrites_fetched [OF fetched]
    using assms(1) inW assms(3) assms(4)
    unfolding mirrorWrites_fetched [OF fetched] attempts_def [symmetric]
    by (rule applyWrites_settles)
qed

lemma syncRepository_settled:
  assumes "\<forall>q\<in>W. \<not> isLink (fs q)"
    and "fst ` set (mirrorWrites e entry) \<subseteq> W"
    and "\<forall>x\<in>set (mirrorWrites e entry). settled e fs x"
  shows "snd (snd (syncRepository e fs entry)) = fs \<and>
         itemsUpdated (fst (syncRepository e fs entry)) = 0"
proof (cases "fetchTree e entry")
  case (Inl err)
  then show ?thesis
    by (simp add: syncRepository_caught_fs)
next
  case (Inr fetched)
  then obtain api owner repo tree where
    fetched: "fetchTree e entry = Inr (api, owner, repo, tree)"
    by (cases fetched) auto
  define attempts where
    "attempts = fileAttempts api owner repo (branch entry) (filterRelevantFiles e tree)"
  have inW: "\<forall>(fileName, content)\<in>set attempts.
      joinPath (getRepositoryPath e (syncRepositoryUrl api owner repo)) fileName \<in> W"
    using assms(2) by (force simp add: mirrorWrites_fetched [OF fetched] attempts_def)
  have ok: "\<forall>(fileName, content)\<in>set attempts.
      settled e fs (joinPath (getRepositoryPath e (syncRepositoryUrl api owner repo)) fileName, content)"
    using assms(3) by (force simp add: mirrorWrites_fetched [OF fetched] attempts_def)
  have "applyWrites e (syncRepositoryUrl api owner repo) attempts 0 fs = (0, fs)"
    using assms(1) inW ok by (rule applyWrites_settled)
  then show ?thesis
    by (simp add: syncRepository_applyWrites [OF fetched] attempts_def)
qed


lemma syncRepositories_settles:
  assumes "\<forall>q\<in>W. \<not> isLink (fs q)"
    and "fst ` set (concat (map (mirrorWrites e) cs)) \<subseteq> W"
    and "\<forall>x\<in>S. settled e fs x"
    and "single_valued (S \<union> set (concat (map (mirrorWrites e) cs)))"
  shows "(\<forall>q\<in>W. \<not> isLink (snd (snd (snd (syncRepositories e cs results tot errs fs))) q)) \<and>
         (\<forall>x\<in>S \<union> set (concat (map (mirrorWrites e) cs)).
            settled e (snd (snd (snd (syncRepositories e cs results tot errs fs)))) x)"
  using assms
proof (induction cs arbitrary: fs S results tot errs)
  case Nil
  then show ?case by simp
next
  case (Cons entry rest)
  obtain result lines fs' where step: "syncRepository e fs entry = (result, lines, fs')"
    by (cases "syncRepository e fs entry") auto
  have sv: "single_valued (S \<union> set (mirrorWrites e entry))"
    using Cons.prems(4) by (rule single_valued_subset [rotated]) auto
  have sub: "fst ` set (mirrorWrites e entry) \<subseteq> W"
    using Cons.prems(2) by auto
  from syncRepository_settles [OF Cons.prems(1) sub Cons.prems(3) sv]
  have nl': "\<forall>q\<in>W. \<not> isLink (fs' q)"
    and settled': "\<forall>x\<in>S \<union> set (mirrorWrites e entry). settled e fs' x"
    by (simp_all add: step)
  have "(\<forall>q\<in>W. \<not> isLink (snd (snd (snd (syncRepositories e rest results' tot' errs' fs'))) q)) \<and>
        (\<forall>x\<in>(S \<union> set (mirrorWrites e entry)) \<union> set (concat (map (mirrorWrites e) rest)).
            settled e (snd (snd (snd (syncRepositories e rest results' tot' errs' fs')))) x)"
    for results' tot' errs'
  proof (rule Cons.IH [OF nl' _ settled'])
    show "fst ` set (concat (map (mirrorWrites e) rest)) \<subseteq> W"
      using Cons.prems(2) by auto
    show "single_valued (S \<union> set (mirrorWrites e entry) \<union> set (concat (map (mirrorWrites e) rest)))"
      using Cons.prems(4) by (simp add: Un_assoc)
  qed
  then show ?case
    by (simp add: step Un_assoc)
qed

lemma syncRepositories_settled:
  assumes "\<forall>q\<in>W. \<not> isLink (fs q)"
    and "fst ` set (concat (map (mirrorWrites e) cs)) \<subseteq> W"
    and "\<forall>x\<in>set (concat (map (mirrorWrites e) cs)). settled e fs x"
  shows "\<exists>new errs'. syncRepositories e cs results tot errs fs = (results @ new, tot, errs', fs) \<and>
           list_all (\<lambda>result. itemsUpdated result = 0) new"
  using assms
proof (induction cs arbitrary: results tot errs)
  case Nil
  then show ?case by simp
next
  case (Cons entry rest)
  obtain result lines fs' where step: "syncRepository e fs entry = (result, lines, fs')"
    by (cases "syncRepository e fs entry") auto
  have "snd (snd (syncRepository e fs entry)) = fs \<and>
        itemsUpdated (fst (syncRepository e fs entry)) = 0"
    using Cons.prems by (intro syncRepository_settled [where W = W]) auto
  then have same: "fs' = fs" and zero: "itemsUpdated result = 0"
    by (simp_all add: step)
  have "\<exists>new errs'. syncRepositories e rest (results @ [result]) tot (errs @ lines) fs
          = ((results @ [result]) @ new, tot, errs', fs) \<and>
          list_all (\<lambda>result. itemsUpdated result = 0) new"
    using Cons.prems by (intro Cons.IH) auto
  then obtain new errs' where
    "syncRepositories e rest (results @ [result]) tot (errs @ lines) fs
       = (results @ result # new, tot, errs', fs)"
    "list_all (\<lambda>result. itemsUpdated result = 0) new"
    by auto
  then show ?case
    using same zero
    by (intro exI [of _ "result # new"] exI [of _ errs']) (simp add: step)
qed

lemma clobberFree_single_valued: "clobberFree ws \<longleftrightarrow> single_valued (set ws)"
  by (auto simp add: clobberFree_def list_all_iff single_valued_def)

lemma noLinks_iff: "noLinks fs ws \<longleftrightarrow> (\<forall>q\<in>fst ` set ws. \<not> isLink (fs q))"
  by (auto simp add: noLinks_def list_all_iff)

lemma pass_fs:
  "snd (syncMultipleRepositories e fs)
   = snd (snd (snd (syncRepositories e (repositoryConfigs e) [] 0 [] fs)))"
  by (cases "syncRepositories e (repositoryConfigs e) [] 0 [] fs")
     (simp add: syncMultipleRepositories_def)

text \<open>
  C9 (amended). When a pass writes no mirror path with two different texts (no two fetched
  files of a repository have the same base name and different texts, no two repositories
  write different texts into one mirror directory) and none of these paths is a symbolic
  link, a second pass with the same upstream reports \<open>itemsUpdated = 0\<close> for every
  repository and leaves the file system, mirror and activation directory, as the first pass
  left it. A file counts as updated only when it was absent or its stored text differed,
  and the write succeeded.
\<close>

theorem second_pass_updates_nothing:
  assumes "clobberFree (passWrites e)" and "noLinks fs (passWrites e)"
  shows "list_all (\<lambda>result. itemsUpdated result = 0)
           (repositories (fst (syncMultipleRepositories e (snd (syncMultipleRepositories e fs))))) \<and>
         totalItemsUpdated (fst (syncMultipleRepositories e (snd (syncMultipleRepositories e fs)))) = 0 \<and>
         snd (syncMultipleRepositories e (snd (syncMultipleRepositories e fs)))
           = snd (syncMultipleRepositories e fs)"
proof -
  define W where "W = fst ` set (passWrites e)"
  define fs1 where "fs1 = snd (syncMultipleRepositories e fs)"
  have nl: "\<forall>q\<in>W. \<not> isLink (fs q)"
    using assms(2) by (simp add: noLinks_iff W_def)
  have sub: "fst ` set (concat (map (mirrorWrites e) (repositoryConfigs e))) \<subseteq> W"
    by (simp add: W_def passWrites_def)
  have sv: "single_valued ({} \<union> set (concat (map (mirrorWrites e) (repositoryConfigs e))))"
    using assms(1) by (simp add: clobberFree_single_valued passWrites_def)
  have "\<forall>x\<in>{}. settled e fs x"
    by simp
  from syncRepositories_settles [OF nl sub this sv, of "[]" 0 "[]"]
  have nl1: "\<forall>q\<in>W. \<not> isLink (fs1 q)"
    and settled1: "\<forall>x\<in>set (concat (map (mirrorWrites e) (repositoryConfigs e))). settled e fs1 x"
    by (simp_all add: fs1_def pass_fs)
  from syncRepositories_settled [OF nl1 sub settled1, of "[]" 0 "[]"]
  obtain new errs' where
    second: "syncRepositories e (repositoryConfigs e) [] 0 [] fs1 = (new, 0, errs', fs1)"
    and zero: "list_all (\<lambda>result. itemsUpdated result = 0) new"
    by auto
  have "syncMultipleRepositories e fs1
        = (\<lparr> overallSuccess = list_all success new, totalItemsUpdated = 0,
              repositories = new, errors = errs' \<rparr>, fs1)"
    by (simp add: syncMultipleRepositories_def second)
  then show ?thesis
    unfolding fs1_def [symmetric] using zero by simp
qed


lemma single_config_name:
  "length (repositoryConfigs e) \<le> 1 \<Longrightarrow> getUniqueWorkspaceName e fs fileName repositoryUrl = fileName"
proof -
  assume "length (repositoryConfigs e) \<le> 1"
  moreover have "length (reposWithFile e fs fileName) \<le> length (repositoryConfigs e)"
    by (simp add: reposWithFile_def)
  ultimately show ?thesis
    by (simp add: getUniqueWorkspaceName_def)
qed

lemma applyWrite_inactive:
  assumes "\<not> isLink (fs (mirrorFile e repositoryUrl fileName))"
    and "fs (mirrorFile e repositoryUrl fileName) \<noteq> Some (File content)"
    and "writeFailure e (mirrorFile e repositoryUrl fileName) = None"
    and "length (repositoryConfigs e) \<le> 1"
    and "fs (activeFile e fileName) = None"
    and "activeFile e fileName \<noteq> mirrorFile e repositoryUrl fileName"
  shows "applyWrite e repositoryUrl (fileName, content) fs
         = (True, fs(mirrorFile e repositoryUrl fileName \<mapsto> File content))"
proof -
  define fs1 where "fs1 = fs(mirrorFile e repositoryUrl fileName \<mapsto> File content)"
  have "fs1 (activeFile e fileName) = None"
    using assms(5,6) by (simp add: fs1_def)
  then have "\<not> fileExists e fs1 (activeFile e fileName)"
    by (rule exists_none)
  then have "updateActivePromptSymlink e fs1 fileName repositoryUrl = fs1"
    by (simp add: updateActivePromptSymlink_def Let_def single_config_name [OF assms(4)]
        activeFile_def)
  then show ?thesis
    using assms(1,2,3)
      applyWrite_plain [where fs = fs and e = e and repositoryUrl = repositoryUrl
        and fileName = fileName and content = content]
    by (simp add: mirrorFile_def fs1_def)
qed

lemma exDup_fields:
  "getPromptsDirectory exDupEnv = js ''/s/prompts''" "repoStorageDir exDupEnv = js ''/s/repos''"
  "repositoryConfigs exDupEnv = [\<lparr> url = exR1, branch = exMain \<rparr>]"
  "writeFailure exDupEnv p = None" "contextAvailable exDupEnv"
  "createFromUrl exDupEnv exR1 = Inr exApi"
  "syncChatmode exDupEnv" "syncInstructions exDupEnv" "syncPrompt exDupEnv"
  by (simp_all add: exDupEnv_def exSyncEnv_def exEnv_def)

lemma exDup_paths:
  "mirrorFile exDupEnv exR1 f = js ''/s/repos/aHR0cHM6Ly9naXRodWIuY29tL28vcg/'' @ f"
  "activeFile exDupEnv f = js ''/s/prompts/'' @ f"
  by (simp_all add: mirrorFile_def activeFile_def getRepositoryPath_def joinPath_def exSlugs
      exDup_fields)
     (simp_all add: js_def)

lemma exDup_distinct: "activeFile exDupEnv f \<noteq> mirrorFile exDupEnv exR1 g"
  by (simp add: exDup_paths) (simp add: js_def)

lemma exApi_fields:
  "getProviderName exApi = js ''github''" "authenticate exApi = Inr ()"
  "parseRepositoryUrl exApi repoUrl = Inr (js ''o'', js ''r'')"
  "getRepositoryTree exApi owner repo branchName = Inr exTree"
  "getFileContent exApi owner repo (js ''prompts/a/x.md'') branchName = Inr (js ''A'')"
  "getFileContent exApi owner repo (js ''prompts/b/x.md'') branchName = Inr (js ''B'')"
  by (simp_all add: exApi_def authenticate_def) (simp add: js_def)

lemma exTree_relevant: "filterRelevantFiles exDupEnv exTree = exTree"
  by (simp add: filterRelevantFiles_def allowedPaths_def exDup_fields Let_def exTree_def
      normalizeSeparators_def REPO_SYNC_CHAT_MODE_PATH_def REPO_SYNC_CHAT_MODE_LEGACY_PATH_def
      REPO_SYNC_CHAT_MODE_LEGACY_SINGULAR_PATH_def REPO_SYNC_INSTRUCTIONS_PATH_def
      REPO_SYNC_PROMPT_PATH_def str_defs)

lemma ex_basenames:
  "getBasename (js ''prompts/a/x.md'') = js ''x.md''"
  "getBasename (js ''prompts/b/x.md'') = js ''x.md''"
  by (simp_all add: getBasename_def str_defs)

lemma exDup_attempts:
  "fileAttempts exApi (js ''o'') (js ''r'') exMain exTree
   = [(js ''x.md'', js ''A''), (js ''x.md'', js ''B'')]"
proof -
  have "js ''A'' \<noteq> []" "js ''B'' \<noteq> []"
    by (simp_all add: js_def)
  then show ?thesis
    by (simp add: exTree_def exApi_fields ex_basenames)
qed

lemma exDup_url: "syncRepositoryUrl exApi (js ''o'') (js ''r'') = exR1"
  by (simp add: syncRepositoryUrl_def exApi_fields Let_def exR1_def) (simp add: js_def)

lemma exDup_fetch:
  "fetchTree exDupEnv \<lparr> url = exR1, branch = exMain \<rparr> = Inr (exApi, js ''o'', js ''r'', exTree)"
  by (simp add: fetchTree_def exDup_fields exApi_fields)

lemma exDup_writes:
  assumes "fs (mirrorFile exDupEnv exR1 (js ''x.md'')) = None \<or>
           fs (mirrorFile exDupEnv exR1 (js ''x.md'')) = Some (File (js ''B''))"
    and "fs (activeFile exDupEnv (js ''x.md'')) = None"
  shows "applyWrites exDupEnv exR1 [(js ''x.md'', js ''A''), (js ''x.md'', js ''B'')] 0 fs
         = (2, fs(mirrorFile exDupEnv exR1 (js ''x.md'') \<mapsto> File (js ''B'')))"
proof -
  define p where "p = mirrorFile exDupEnv exR1 (js ''x.md'')"
  have ab: "js ''A'' \<noteq> js ''B''"
    by (simp add: js_def)
  have first: "applyWrite exDupEnv exR1 (js ''x.md'', js ''A'') fs = (True, fs(p \<mapsto> File (js ''A'')))"
    unfolding p_def using assms ab
    by (intro applyWrite_inactive) (auto simp add: exDup_fields exDup_distinct)
  have "applyWrite exDupEnv exR1 (js ''x.md'', js ''B'') (fs(p \<mapsto> File (js ''A'')))
        = (True, (fs(p \<mapsto> File (js ''A'')))(p \<mapsto> File (js ''B'')))"
    unfolding p_def using assms ab
    by (intro applyWrite_inactive) (auto simp add: exDup_fields exDup_distinct)
  then show ?thesis
    using first by (simp add: p_def)
qed

lemma exDup_repository:
  assumes "fs (mirrorFile exDupEnv exR1 (js ''x.md'')) = None \<or>
           fs (mirrorFile exDupEnv exR1 (js ''x.md'')) = Some (File (js ''B''))"
    and "fs (activeFile exDupEnv (js ''x.md'')) = None"
  shows "syncMultipleRepositories exDupEnv fs
         = (\<lparr> overallSuccess = True, totalItemsUpdated = 2,
               repositories = [\<lparr> repository = exR1, success = True, itemsUpdated = 2,
                                  error = None \<rparr>],
               errors = [] \<rparr>,
            fs(mirrorFile exDupEnv exR1 (js ''x.md'') \<mapsto> File (js ''B'')))"
proof -
  have files: "syncFiles exDupEnv fs exApi (js ''o'') (js ''r'') exTree exMain
        = (2, fs(mirrorFile exDupEnv exR1 (js ''x.md'') \<mapsto> File (js ''B'')))"
    unfolding syncFiles_def syncFilesLoop_applyWrites exDup_attempts exDup_url
    by (rule exDup_writes [OF assms])
  have "exTree \<noteq> []"
    by (simp add: exTree_def)
  then have "syncRepository exDupEnv fs \<lparr> url = exR1, branch = exMain \<rparr>
        = (\<lparr> repository = exR1, success = True, itemsUpdated = 2, error = None \<rparr>, [],
           fs(mirrorFile exDupEnv exR1 (js ''x.md'') \<mapsto> File (js ''B'')))"
    by (simp add: syncRepository_def exDup_fetch exTree_relevant Let_def files)
  then show ?thesis
    by (simp add: syncMultipleRepositories_def exDup_fields)
qed

text \<open>
  C9 as stated fails for a tree with \<open>prompts/a/x.md\<close> and \<open>prompts/b/x.md\<close> of
  different texts: both are stored as \<open>x.md\<close> in the flat mirror directory, each pass
  overwrites the one with the other, and the second pass reports two updated items again.
\<close>

theorem second_pass_counterexample:
  "map itemsUpdated (repositories (fst (syncMultipleRepositories exDupEnv
      (snd (syncMultipleRepositories exDupEnv Map.empty))))) = [2]"
proof -
  define fs1 where "fs1 = [mirrorFile exDupEnv exR1 (js ''x.md'') \<mapsto> File (js ''B'')]"
  have first: "snd (syncMultipleRepositories exDupEnv Map.empty) = fs1"
    by (simp add: exDup_repository fs1_def)
  have "fs1 (activeFile exDupEnv (js ''x.md'')) = None"
    by (simp add: fs1_def exDup_distinct)
  then have "map itemsUpdated (repositories (fst (syncMultipleRepositories exDupEnv fs1))) = [2]"
    by (subst exDup_repository) (simp_all add: fs1_def)
  then show ?thesis
    by (simp add: first)
qed


lemma exOne_writes:
  "passWrites exOneEnv = [(mirrorFile exOneEnv exR1 (js ''x.md''), js ''A'')]"
proof -
  define api where "api = exApi \<lparr> getRepositoryTree := (\<lambda>owner repo branchName.
            Inr [\<lparr> path = js ''prompts/a/x.md'', type = js ''blob'' \<rparr>]) \<rparr>"
  have fields: "repositoryConfigs exOneEnv = [\<lparr> url = exR1, branch = exMain \<rparr>]"
    "contextAvailable exOneEnv" "createFromUrl exOneEnv exR1 = Inr api"
    "syncChatmode exOneEnv" "syncInstructions exOneEnv" "syncPrompt exOneEnv"
    by (simp_all add: exOneEnv_def exDupEnv_def exSyncEnv_def exEnv_def api_def)
  have api: "getProviderName api = js ''github''" "authenticate api = Inr ()"
    "parseRepositoryUrl api exR1 = Inr (js ''o'', js ''r'')"
    "getRepositoryTree api (js ''o'') (js ''r'') exMain
       = Inr [\<lparr> path = js ''prompts/a/x.md'', type = js ''blob'' \<rparr>]"
    "getFileContent api (js ''o'') (js ''r'') (js ''prompts/a/x.md'') exMain = Inr (js ''A'')"
    by (simp_all add: api_def exApi_def authenticate_def)
  have fetch: "fetchTree exOneEnv \<lparr> url = exR1, branch = exMain \<rparr>
      = Inr (api, js ''o'', js ''r'', [\<lparr> path = js ''prompts/a/x.md'', type = js ''blob'' \<rparr>])"
    by (simp add: fetchTree_def fields api)
  have relevant: "filterRelevantFiles exOneEnv [\<lparr> path = js ''prompts/a/x.md'', type = js ''blob'' \<rparr>]
      = [\<lparr> path = js ''prompts/a/x.md'', type = js ''blob'' \<rparr>]"
    by (simp add: filterRelevantFiles_def allowedPaths_def fields Let_def
      normalizeSeparators_def REPO_SYNC_CHAT_MODE_PATH_def REPO_SYNC_CHAT_MODE_LEGACY_PATH_def
      REPO_SYNC_CHAT_MODE_LEGACY_SINGULAR_PATH_def REPO_SYNC_INSTRUCTIONS_PATH_def
      REPO_SYNC_PROMPT_PATH_def str_defs)
  have ne: "js ''A'' \<noteq> []"
    by (simp add: js_def)
  have "syncRepositoryUrl api (js ''o'') (js ''r'') = exR1"
    by (simp add: syncRepositoryUrl_def api Let_def exR1_def) (simp add: js_def)
  then show ?thesis
    using ne
    by (simp add: passWrites_def fields mirrorWrites_def fetch relevant api ex_basenames
        mirrorFile_def)
qed

theorem second_pass_updates_nothing_witness:
  "clobberFree (passWrites exOneEnv) \<and> noLinks Map.empty (passWrites exOneEnv) \<and>
   list_all (\<lambda>result. itemsUpdated result = 0)
     (repositories (fst (syncMultipleRepositories exOneEnv
        (snd (syncMultipleRepositories exOneEnv Map.empty))))) \<and>
   totalItemsUpdated (fst (syncMultipleRepositories exOneEnv
        (snd (syncMultipleRepositories exOneEnv Map.empty)))) = 0 \<and>
   snd (syncMultipleRepositories exOneEnv (snd (syncMultipleRepositories exOneEnv Map.empty)))
     = snd (syncMultipleRepositories exOneEnv Map.empty)"
proof -
  have h1: "clobberFree (passWrites exOneEnv)"
    by (simp add: exOne_writes clobberFree_def)
  have h2: "noLinks Map.empty (passWrites exOneEnv)"
    by (simp add: exOne_writes noLinks_def)
  show ?thesis
    using h1 h2 second_pass_updates_nothing [OF h1 h2] by simp
qed

section \<open>Proofs: every repository is synced on what its predecessors left\<close>















end
